theory Spec2Isabelle
  imports Main "HOL-Library.Product_Lexorder"
begin

section \<open>Data model\<close>

text \<open>
  The rows of the relational store, as the routers read and write them. Identifiers of
  assignments, annotations, relations, tasks and documents are integers; user identifiers
  are uuid strings. A nullable column is an \<open>option\<close>; the status, sequence position,
  rating and slot number of an assignment are the non-null values of \<open>ZAssignmentFields\<close>.
  Field names carry a short prefix of their table, since all tables have an \<open>id\<close>.

  The procedures below are the bodies of the router procedures. The authorisation
  middleware in front of them and the validation of their inputs are left out: an input
  is a value of the type its schema describes.
\<close>

datatype AssignmentStatuses = Pending | Done

record Assignment =
  as_id :: int
  as_task_id :: int
  as_document_id :: int
  as_annotator_id :: "string option"
  as_annotator_number :: int
  as_status :: AssignmentStatuses
  as_seq_pos :: int
  as_difficulty_rating :: int
  as_origin :: string

record Annotation =
  an_id :: int
  an_assignment_id :: int
  an_label :: string
  an_start_index :: int
  an_end_index :: int
  an_text :: string
  an_ls_id :: string
  an_origin :: string
  an_confidence_rating :: int

record Relation =
  rl_id :: int
  rl_direction :: string
  rl_from_id :: int
  rl_to_id :: int
  rl_labels :: "string list"
  rl_ls_from :: string
  rl_ls_to :: string

record Task =
  tk_id :: int
  tk_name :: string
  tk_desc :: string
  tk_project_id :: int
  tk_labelset_id :: int
  tk_ann_guidelines :: string
  tk_ml_model_id :: "int option"
  tk_annotation_level :: string

record User =
  us_id :: string
  us_email :: string
  us_role :: "string option"

record Document =
  dc_id :: int
  dc_name :: string

text \<open>
  The tables of the store. The origin a new assignment defaults to belongs to the schema
  of the store, which is not among the sources; it is kept with the tables.
\<close>

record db =
  tasks :: "Task list"
  assignments :: "Assignment list"
  annotations :: "Annotation list"
  annotation_relations :: "Relation list"
  users :: "User list"
  documents :: "Document list"
  origin_default :: string

datatype TRPC_CODE = INTERNAL_SERVER_ERROR | NOT_FOUND | BAD_REQUEST

datatype error =
    TRPCError TRPC_CODE string
  | TypeError string
  | Error string

section \<open>The query builder of the persistence gateway\<close>

text \<open>
  A response of the store client: \<open>data\<close>, \<open>error\<close> (its message) and \<open>count\<close>.
  \<open>select().eq(...)\<close> is \<open>filter\<close>, \<open>order\<close> is a stable sort, \<open>limit\<close> is \<open>take\<close>.
  \<open>single\<close> wants exactly one row, \<open>maybeSingle\<close> at most one. The store is an
  in-memory table here and answers every read; the error branches of the handlers are
  kept as they are written.
\<close>

record 'a response =
  res_data :: "'a option"
  res_error :: "string option"
  res_count :: "nat option"

definition rows_error :: string where
  "rows_error = ''JSON object requested, multiple (or no) rows returned''"

definition single :: "'a list \<Rightarrow> 'a response" where
  "single rows =
     (case rows of
        [x] \<Rightarrow> \<lparr>res_data = Some x, res_error = None, res_count = None\<rparr>
      | _ \<Rightarrow> \<lparr>res_data = None, res_error = Some rows_error, res_count = None\<rparr>)"

definition maybeSingle :: "'a list \<Rightarrow> 'a response" where
  "maybeSingle rows =
     (case rows of
        [] \<Rightarrow> \<lparr>res_data = None, res_error = None, res_count = None\<rparr>
      | [x] \<Rightarrow> \<lparr>res_data = Some x, res_error = None, res_count = None\<rparr>
      | _ \<Rightarrow> \<lparr>res_data = None, res_error = Some rows_error, res_count = None\<rparr>)"

definition select_many :: "'a list \<Rightarrow> ('a list) response" where
  "select_many rows = \<lparr>res_data = Some rows, res_error = None, res_count = None\<rparr>"

definition count_exact_head :: "'a list \<Rightarrow> unit response" where
  "count_exact_head rows =
     \<lparr>res_data = None, res_error = None, res_count = Some (length rows)\<rparr>"

definition err_msg :: "string option \<Rightarrow> string" where
  "err_msg e = (case e of Some m \<Rightarrow> m | None \<Rightarrow> [])"

section \<open>Sequencer (assignment router)\<close>

record next_total =
  nt_next :: int
  nt_total :: int

text \<open>
  \<open>countAssignmentsByUserAndTask\<close>: the first query selects the lowest pending
  \<open>seq_pos\<close> of the annotator in the task, the second counts all the annotator's
  assignments in the task. \<open>next?.seq_pos ?? count! + 1\<close> parses as
  \<open>next?.seq_pos ?? (count! + 1)\<close>; a null count adds as 0.
\<close>

definition countAssignmentsByUserAndTask :: "db \<Rightarrow> string \<Rightarrow> int \<Rightarrow> error + next_total" where
  "countAssignmentsByUserAndTask d annotator_id task_id =
     (let r_next = maybeSingle (take 1 (sort_key as_seq_pos
            (filter (\<lambda>a. as_status a = Pending)
              (filter (\<lambda>a. as_task_id a = task_id)
                (filter (\<lambda>a. as_annotator_id a = Some annotator_id) (assignments d))))));
          r_total = count_exact_head
            (filter (\<lambda>a. as_task_id a = task_id)
              (filter (\<lambda>a. as_annotator_id a = Some annotator_id) (assignments d)))
      in if res_error r_next \<noteq> None then
           Inl (TRPCError INTERNAL_SERVER_ERROR
             (''Error in 1 countAssignmentsByUserAndTask: '' @ err_msg (res_error r_next)))
         else if res_error r_total \<noteq> None then
           Inl (TRPCError INTERNAL_SERVER_ERROR
             (''Error in 2 countAssignmentsByUserAndTask: '' @ err_msg (res_error r_total)))
         else
           Inr \<lparr>nt_next =
                  (case res_data r_next of
                     Some a \<Rightarrow> as_seq_pos a
                   | None \<Rightarrow> (case res_count r_total of Some c \<Rightarrow> int c | None \<Rightarrow> 0) + 1),
                nt_total = (case res_count r_total of Some c \<Rightarrow> int c | None \<Rightarrow> 0)\<rparr>)"

text \<open>
  Modelled from the spec: the stored procedure \<open>next_random_assignment\<close> is not among
  the sources. It picks one of the annotator's pending assignments in the task, at an
  index of its own choosing (\<open>pick\<close>, reduced to the size of the pending set), and
  returns no row when none is pending.
\<close>

definition next_random_assignment :: "nat \<Rightarrow> db \<Rightarrow> string \<Rightarrow> int \<Rightarrow> Assignment list" where
  "next_random_assignment pick d a_id t_id =
     (let pending = filter (\<lambda>a. as_annotator_id a = Some a_id \<and> as_task_id a = t_id
                               \<and> as_status a = Pending) (assignments d)
      in if pending = [] then [] else [pending ! (pick mod length pending)])"

text \<open>
  \<open>findNextAssignmentsByUserAndTask\<close>: the call of the stored procedure through
  \<open>single\<close>; any error of the call is thrown as an internal server error.
\<close>

definition findNextAssignmentsByUserAndTask ::
  "nat \<Rightarrow> db \<Rightarrow> string \<Rightarrow> int \<Rightarrow> error + Assignment option" where
  "findNextAssignmentsByUserAndTask pick d annotator_id task_id =
     (let r = single (next_random_assignment pick d annotator_id task_id)
      in if res_error r \<noteq> None then
           Inl (TRPCError INTERNAL_SERVER_ERROR
             (''Error in findNextAssignmentsByUserAndTask: '' @ err_msg (res_error r)))
         else Inr (res_data r))"

text \<open>
  \<open>findNextAssignmentByUser\<close>: the annotator's pending assignments, ordered by
  \<open>task_id\<close> descending and then \<open>seq_pos\<close> ascending, limited to one row.
\<close>

definition findNextAssignmentByUser :: "db \<Rightarrow> string \<Rightarrow> error + Assignment option" where
  "findNextAssignmentByUser d user_id =
     (let r = maybeSingle (take 1 (sort_key (\<lambda>a. (- as_task_id a, as_seq_pos a))
            (filter (\<lambda>a. as_status a = Pending)
              (filter (\<lambda>a. as_annotator_id a = Some user_id) (assignments d)))))
      in if res_error r \<noteq> None then
           Inl (TRPCError INTERNAL_SERVER_ERROR
             (''Error in findNextAssignmentByUser: '' @ err_msg (res_error r)))
         else Inr (res_data r))"

text \<open>
  \<open>findAssignmentsByTask\<close> and \<open>findAssignmentsByTaskAndUser\<close>. The optional filters
  of the latter are applied when the input value is truthy: an absent or empty
  \<open>annotator_id\<close> and an absent or zero \<open>annotator_number\<close> add no filter.
\<close>

definition findAssignmentsByTask :: "db \<Rightarrow> int \<Rightarrow> error + Assignment list" where
  "findAssignmentsByTask d task_id =
     (let r = select_many (sort_key as_id
            (filter (\<lambda>a. as_task_id a = task_id) (assignments d)))
      in if res_error r \<noteq> None then
           Inl (TRPCError INTERNAL_SERVER_ERROR
             (''Error in findAssignmentsByTask: '' @ err_msg (res_error r)))
         else Inr (case res_data r of Some rows \<Rightarrow> rows | None \<Rightarrow> []))"

record TaskAndUser =
  in_annotator_id :: "string option"
  in_annotator_number :: "int option"
  in_task_id :: int

definition truthy_string :: "string option \<Rightarrow> bool" where
  "truthy_string s = (case s of None \<Rightarrow> False | Some v \<Rightarrow> v \<noteq> [])"

definition truthy_number :: "int option \<Rightarrow> bool" where
  "truthy_number n = (case n of None \<Rightarrow> False | Some v \<Rightarrow> v \<noteq> 0)"

definition findAssignmentsByTaskAndUser :: "db \<Rightarrow> TaskAndUser \<Rightarrow> error + Assignment list" where
  "findAssignmentsByTaskAndUser d input =
     (let query = filter (\<lambda>a. as_task_id a = in_task_id input) (assignments d);
          query = (if truthy_string (in_annotator_id input)
                   then filter (\<lambda>a. as_annotator_id a = in_annotator_id input) query
                   else query);
          query = (if truthy_number (in_annotator_number input)
                   then filter (\<lambda>a. Some (as_annotator_number a) = in_annotator_number input) query
                   else query);
          r = select_many (sort_key as_id query)
      in if res_error r \<noteq> None then
           Inl (TRPCError INTERNAL_SERVER_ERROR
             (''Error in findAssignmentsByTaskAndUser: '' @ err_msg (res_error r)))
         else Inr (case res_data r of Some rows \<Rightarrow> rows | None \<Rightarrow> []))"

section \<open>Reassignment coordinator: the outcome classification\<close>

record stats =
  success :: nat
  failed :: nat

record Annotator =
  ar_id :: "string option"
  ar_email :: "string option"
  ar_role :: "string option"
  ar_annotator_number :: int

record reassigned =
  message :: string
  annotators_out :: "Annotator list"

text \<open>
  The tail of \<open>updateAssignees\<close>: the chain of four tests on the two counters
  (a counter is truthy when it is not zero) and the final throw after the chain.
\<close>

definition classify :: "stats \<Rightarrow> Annotator list \<Rightarrow> error + reassigned" where
  "classify st flat_annotators =
     (if success st \<noteq> 0 \<and> \<not> failed st \<noteq> 0 then
        Inr \<lparr>message = ''All the assignments have been reassigned'',
             annotators_out = flat_annotators\<rparr>
      else if \<not> success st \<noteq> 0 \<and> \<not> failed st \<noteq> 0 then
        Inr \<lparr>message = ''No changes have been made'', annotators_out = flat_annotators\<rparr>
      else if success st \<noteq> 0 \<and> failed st \<noteq> 0 then
        Inl (TRPCError INTERNAL_SERVER_ERROR ''Some assignment updates failed'')
      else if \<not> success st \<noteq> 0 \<and> failed st \<noteq> 0 then
        Inl (TRPCError INTERNAL_SERVER_ERROR ''All assignment updates failed'')
      else Inl (TRPCError INTERNAL_SERVER_ERROR ''Undefined case''))"

section \<open>External collaborators of the reassignment\<close>

text \<open>
  The identity provider, the mail provider and the store can fail for reasons outside the
  routers. Their answers are the fields of \<open>env\<close>: the outcome of an invitation for an
  email (an error message, or the identifier of the invited user), the configured mail
  token, whether a mail to a recipient is accepted, and the error, if any, with which the
  store rejects an update of an assignment row.
\<close>

record AssignmentUpdates =
  up_annotator_id :: "string option option"
  up_task_id :: "int option"
  up_document_id :: "int option"
  up_status :: "AssignmentStatuses option"
  up_seq_pos :: "int option"
  up_difficulty_rating :: "int option"
  up_annotator_number :: "int option"

record env =
  inviteUserByEmail :: "string \<Rightarrow> string + string"
  mailtrapToken :: string
  send_success :: "string \<Rightarrow> bool"
  update_rejected :: "int \<Rightarrow> AssignmentUpdates \<Rightarrow> string option"

text \<open>
  The state the procedures act on: the store, and the calls made so far to the identity
  provider (invitations with the task put in the invited profile, metadata updates of
  existing users) and to the mail provider (recipients).
\<close>

record world =
  store :: db
  invite_calls :: "(string \<times> int) list"
  metadata_calls :: "(string \<times> int) list"
  mail_calls :: "string list"

text \<open>The trigger \<open>handle_new_user\<close>: an invited user gets a row of \<open>users\<close>.\<close>

definition handle_new_user :: "db \<Rightarrow> string \<Rightarrow> string \<Rightarrow> db" where
  "handle_new_user d new_id new_email =
     d\<lparr>users := users d @ [\<lparr>us_id = new_id, us_email = new_email, us_role = None\<rparr>]\<rparr>"

text \<open>
  \<open>assignUserToTask\<close>: looks the email up; an unknown email is invited, a known user
  gets the task in the account metadata and a mail. Every failure is a throw.
\<close>

definition assignUserToTask :: "env \<Rightarrow> world \<Rightarrow> string \<Rightarrow> int \<Rightarrow> (error + string) \<times> world" where
  "assignUserToTask e w email task_id =
     (let email_found = maybeSingle (filter (\<lambda>u. us_email u = email) (users (store w)))
      in case res_data email_found of
           None \<Rightarrow>
             (let w1 = w\<lparr>invite_calls := invite_calls w @ [(email, task_id)]\<rparr>
              in case inviteUserByEmail e email of
                   Inl msg \<Rightarrow>
                     (Inl (TRPCError INTERNAL_SERVER_ERROR (''Error inviting: '' @ msg)), w1)
                 | Inr user_id \<Rightarrow>
                     (let w2 = w1\<lparr>store := handle_new_user (store w1) user_id email\<rparr>
                      in if user_id = [] then
                           (Inl (TRPCError INTERNAL_SERVER_ERROR
                              ''Error retrieving or inviting the specified user''), w2)
                         else (Inr user_id, w2)))
         | Some u \<Rightarrow>
             (let user_id = us_id u;
                  user_email = us_email u;
                  w1 = w\<lparr>metadata_calls := metadata_calls w @ [(user_id, task_id)]\<rparr>
              in if mailtrapToken e = [] then (Inl (Error ''Mailtrap API token not set''), w1)
                 else
                   (let w2 = w1\<lparr>mail_calls := mail_calls w1 @ [user_email]\<rparr>
                    in if \<not> send_success e user_email then
                         (Inl (TRPCError INTERNAL_SERVER_ERROR
                            ''There was an error sending an email to the invited user.''), w2)
                       else if user_id = [] then
                         (Inl (TRPCError INTERNAL_SERVER_ERROR
                            ''Error retrieving or inviting the specified user''), w2)
                       else (Inr user_id, w2))))"

text \<open>\<open>assignment.update\<close>: the given fields of the row with the given id are overwritten.\<close>

definition no_updates :: AssignmentUpdates where
  "no_updates = \<lparr>up_annotator_id = None, up_task_id = None, up_document_id = None,
     up_status = None, up_seq_pos = None, up_difficulty_rating = None,
     up_annotator_number = None\<rparr>"

definition apply_updates :: "Assignment \<Rightarrow> AssignmentUpdates \<Rightarrow> Assignment" where
  "apply_updates a u =
     a\<lparr>as_annotator_id := (case up_annotator_id u of None \<Rightarrow> as_annotator_id a | Some v \<Rightarrow> v),
       as_task_id := (case up_task_id u of None \<Rightarrow> as_task_id a | Some v \<Rightarrow> v),
       as_document_id := (case up_document_id u of None \<Rightarrow> as_document_id a | Some v \<Rightarrow> v),
       as_status := (case up_status u of None \<Rightarrow> as_status a | Some v \<Rightarrow> v),
       as_seq_pos := (case up_seq_pos u of None \<Rightarrow> as_seq_pos a | Some v \<Rightarrow> v),
       as_difficulty_rating :=
         (case up_difficulty_rating u of None \<Rightarrow> as_difficulty_rating a | Some v \<Rightarrow> v),
       as_annotator_number :=
         (case up_annotator_number u of None \<Rightarrow> as_annotator_number a | Some v \<Rightarrow> v)\<rparr>"

definition assignment_update ::
  "env \<Rightarrow> world \<Rightarrow> int \<Rightarrow> AssignmentUpdates \<Rightarrow> (error + Assignment) \<times> world" where
  "assignment_update e w i updates =
     (case update_rejected e i updates of
        Some msg \<Rightarrow> (Inl (TRPCError INTERNAL_SERVER_ERROR (''Error in update: '' @ msg)), w)
      | None \<Rightarrow>
          (let r = single (map (\<lambda>a. apply_updates a updates)
                     (filter (\<lambda>a. as_id a = i) (assignments (store w))))
           in case res_data r of
                None \<Rightarrow>
                  (Inl (TRPCError INTERNAL_SERVER_ERROR
                     (''Error in update: '' @ err_msg (res_error r))), w)
              | Some row \<Rightarrow>
                  (Inr row,
                   w\<lparr>store := (store w)\<lparr>assignments :=
                        map (\<lambda>a. if as_id a = i then apply_updates a updates else a)
                          (assignments (store w))\<rparr>\<rparr>)))"

text \<open>
  The stored function \<open>get_all_annotators_from_task\<close>: the task's assignments, left
  joined with their users, grouped by user and slot number, ordered by slot number.
  \<open>getAllAnnotatorsFromTask\<close> returns its rows.
\<close>

definition annotator_rows :: "db \<Rightarrow> Assignment \<Rightarrow> Annotator list" where
  "annotator_rows d a =
     (case filter (\<lambda>u. Some (us_id u) = as_annotator_id a) (users d) of
        [] \<Rightarrow> [\<lparr>ar_id = None, ar_email = None, ar_role = None,
                ar_annotator_number = as_annotator_number a\<rparr>]
      | us \<Rightarrow> map (\<lambda>u. \<lparr>ar_id = Some (us_id u), ar_email = Some (us_email u),
                ar_role = us_role u, ar_annotator_number = as_annotator_number a\<rparr>) us)"

definition get_all_annotators_from_task :: "db \<Rightarrow> int \<Rightarrow> Annotator list" where
  "get_all_annotators_from_task d t_id =
     sort_key ar_annotator_number (remdups (concat (map (\<lambda>t.
       concat (map (annotator_rows d)
         (filter (\<lambda>a. tk_id t = as_task_id a \<and> tk_id t = t_id) (assignments d))))
       (tasks d))))"

definition getAllAnnotatorsFromTask :: "db \<Rightarrow> int \<Rightarrow> error + Annotator list" where
  "getAllAnnotatorsFromTask d task_id =
     (let r = select_many (get_all_annotators_from_task d task_id)
      in if res_error r \<noteq> None then
           Inl (TRPCError INTERNAL_SERVER_ERROR
             (''Error in tasks.getAllAnnotatorsFromTask: '' @ err_msg (res_error r)))
         else Inr (case res_data r of Some rows \<Rightarrow> rows | None \<Rightarrow> []))"

section \<open>Reassignment coordinator: \<open>updateAssignees\<close>\<close>

text \<open>
  The inner loop: one update per fetched assignment, inside \<open>try\<close>; a success and a
  caught failure each bump their counter, and the loop goes on.
\<close>

fun rebind_all :: "env \<Rightarrow> string option \<Rightarrow> Assignment list \<Rightarrow> stats \<Rightarrow> world \<Rightarrow> stats \<times> world" where
  "rebind_all e new_user [] st w = (st, w)"
| "rebind_all e new_user (ass # rest) st w =
     (case assignment_update e w (as_id ass) (no_updates\<lparr>up_annotator_id := Some new_user\<rparr>) of
        (Inr row, w') \<Rightarrow> rebind_all e new_user rest (st\<lparr>success := Suc (success st)\<rparr>) w'
      | (Inl err, w') \<Rightarrow> rebind_all e new_user rest (st\<lparr>failed := Suc (failed st)\<rparr>) w')"

text \<open>
  The body of the outer loop for a slot \<open>i\<close> whose requested email differs from the
  current one: fetch the assignments by the slot's number, resolve a user unless the
  requested email is empty (then \<open>new_user\<close> stays null), re-bind, and write the
  requested email into the slot. A throw of the fetch or of the resolution leaves the
  handler.
\<close>

definition updateAssignees_slot ::
  "env \<Rightarrow> int \<Rightarrow> string list \<Rightarrow> nat \<Rightarrow> Annotator list \<Rightarrow> stats \<Rightarrow> world
     \<Rightarrow> (error + Annotator list \<times> stats) \<times> world" where
  "updateAssignees_slot e task_id new_emails i annotators st w =
     (case findAssignmentsByTaskAndUser (store w)
             \<lparr>in_annotator_id = None,
              in_annotator_number = Some (ar_annotator_number (annotators ! i)),
              in_task_id = task_id\<rparr> of
        Inl err \<Rightarrow> (Inl err, w)
      | Inr asgs \<Rightarrow>
          (case (if new_emails ! i \<noteq> [] \<and> length new_emails \<noteq> 0
                 then (case assignUserToTask e w (new_emails ! i) task_id of
                         (Inl err, w1) \<Rightarrow> (Inl err, w1)
                       | (Inr user_id, w1) \<Rightarrow> (Inr (Some user_id), w1))
                 else (Inr None, w)) of
             (Inl err, w1) \<Rightarrow> (Inl err, w1)
           | (Inr new_user, w1) \<Rightarrow>
               (case rebind_all e new_user asgs st w1 of
                  (st', w2) \<Rightarrow>
                    (Inr (annotators[i := (annotators ! i)\<lparr>ar_email := Some (new_emails ! i)\<rparr>],
                          st'), w2))))"

text \<open>
  The outer loop over the indices of \<open>new_emails\<close>. Reading \<open>annotators[i].email\<close> past
  the end of \<open>annotators\<close> is a TypeError. The current email of a slot is null when no
  user is bound; a string never equals null.
\<close>

function updateAssignees_loop ::
  "env \<Rightarrow> int \<Rightarrow> string list \<Rightarrow> nat \<Rightarrow> Annotator list \<Rightarrow> stats \<Rightarrow> world
     \<Rightarrow> (error + Annotator list \<times> stats) \<times> world" where
  "updateAssignees_loop e task_id new_emails i annotators st w =
     (if i < length new_emails then
        (if length annotators \<le> i then
           (Inl (TypeError ''Cannot read properties of undefined''), w)
         else if Some (new_emails ! i) \<noteq> ar_email (annotators ! i) then
           (case updateAssignees_slot e task_id new_emails i annotators st w of
              (Inl err, w') \<Rightarrow> (Inl err, w')
            | (Inr (annotators', st'), w') \<Rightarrow>
                updateAssignees_loop e task_id new_emails (Suc i) annotators' st' w')
         else updateAssignees_loop e task_id new_emails (Suc i) annotators st w)
      else (Inr (annotators, st), w))"
  by pat_completeness auto
termination
  by (relation "measure (\<lambda>(e, task_id, new_emails, i, annotators, st, w). length new_emails - i)")
    auto

declare updateAssignees_loop.simps [simp del]

definition updateAssignees ::
  "env \<Rightarrow> world \<Rightarrow> int \<Rightarrow> string list \<Rightarrow> (error + reassigned) \<times> world" where
  "updateAssignees e w task_id new_emails =
     (case getAllAnnotatorsFromTask (store w) task_id of
        Inl err \<Rightarrow> (Inl err, w)
      | Inr annotators \<Rightarrow>
          (case updateAssignees_loop e task_id new_emails 0 annotators
                  \<lparr>success = 0, failed = 0\<rparr> w of
             (Inl err, w') \<Rightarrow> (Inl err, w')
           | (Inr (annotators', st), w') \<Rightarrow> (classify st annotators', w')))"

section \<open>Entity remapper and task replicator (task router)\<close>

text \<open>
  An identity column gives a new row an identifier above every identifier present.
\<close>

definition fresh_id :: "int list \<Rightarrow> int" where
  "fresh_id ids = foldr max ids 0 + 1"

fun with_ids :: "int \<Rightarrow> 'a list \<Rightarrow> (int \<times> 'a) list" where
  "with_ids n [] = []"
| "with_ids n (x # xs) = (n, x) # with_ids (n + 1) xs"

text \<open>
  \<open>task.findById\<close>: the query asks for no count, so \<open>count\<close> is null and the
  \<open>NOT_FOUND\<close> test never fires; a missing row is the error of \<open>single\<close>.
\<close>

definition task_findById :: "db \<Rightarrow> int \<Rightarrow> error + Task" where
  "task_findById d i =
     (let r = single (filter (\<lambda>x. tk_id x = i) (tasks d))
      in if res_count r = Some 0 then Inl (TRPCError NOT_FOUND [])
         else case res_data r of
                None \<Rightarrow> Inl (TRPCError INTERNAL_SERVER_ERROR
                          (''Error in tasks.findById: '' @ err_msg (res_error r)))
              | Some task \<Rightarrow> Inr task)"

text \<open>
  \<open>task.create\<close>: the input schema keeps the fields of \<open>ZTaskFields\<close> and drops the
  rest (the old id); the row gets a new id.
\<close>

definition task_create :: "db \<Rightarrow> Task \<Rightarrow> (error + Task) \<times> db" where
  "task_create d input =
     (let new_task = input\<lparr>tk_id := fresh_id (map tk_id (tasks d))\<rparr>
      in (Inr new_task, d\<lparr>tasks := tasks d @ [new_task]\<rparr>))"

text \<open>
  A value read from a plain JavaScript object used as a dictionary: \<open>dic[key]\<close> is the
  number stored under the key, or the member of \<open>Object.prototype\<close> of that name, or
  undefined. \<open>key in dic\<close> is true for a stored key and for every name that
  \<open>Object.prototype\<close> has.
\<close>

datatype js_value = Undefined | Number int | Inherited string

definition Object_prototype :: "string list" where
  "Object_prototype =
     [''constructor'', ''__defineGetter__'', ''__defineSetter__'', ''hasOwnProperty'',
      ''__lookupGetter__'', ''__lookupSetter__'', ''isPrototypeOf'', ''propertyIsEnumerable'',
      ''toString'', ''valueOf'', ''__proto__'', ''toLocaleString'']"

definition js_in :: "string \<Rightarrow> (string \<rightharpoonup> int) \<Rightarrow> bool" where
  "js_in key dic \<longleftrightarrow> dic key \<noteq> None \<or> key \<in> set Object_prototype"

definition js_get :: "(string \<rightharpoonup> int) \<Rightarrow> string \<Rightarrow> js_value" where
  "js_get dic key =
     (case dic key of
        Some v \<Rightarrow> Number v
      | None \<Rightarrow> if key \<in> set Object_prototype then Inherited key else Undefined)"

text \<open>
  The payloads of the batch inserts, as the task router builds them: rows without id.
  The rows \<open>replicateTask\<close> builds carry no \<open>task_id\<close>; the \<open>document_id\<close> of a row
  \<open>mergeTasks\<close> builds is what the lookup in \<open>name2Id\<close> gave; \<open>annotator_id\<close> is a
  string or null. A reference looked up in a mapping table keyed by numbers can be
  undefined.
\<close>

record NewAssignment =
  na_task_id :: "int option"
  na_document_id :: js_value
  na_annotator_id :: "string option"
  na_annotator_number :: int
  na_status :: AssignmentStatuses
  na_origin :: string
  na_seq_pos :: int
  na_difficulty_rating :: int

record NewAnnotation =
  nn_assignment_id :: "int option"
  nn_label :: string
  nn_start_index :: int
  nn_end_index :: int
  nn_text :: string
  nn_ls_id :: string
  nn_origin :: string
  nn_confidence_rating :: int

record NewRelation =
  nr_direction :: string
  nr_from_id :: "int option"
  nr_to_id :: "int option"
  nr_labels :: "string list"
  nr_ls_from :: string
  nr_ls_to :: string

text \<open>
  \<open>assignment.createMany\<close> (assignment router). Its input schema is an array of
  objects: \<open>task_id\<close> and \<open>document_id\<close> are required integers, \<open>annotator_id\<close> is a
  string or absent (null is refused), the other keys are optional and a key the schema
  does not name (\<open>origin\<close>) is dropped. An input that is not an array, or an array with
  a row the schema refuses, is answered with \<open>BAD_REQUEST\<close> before the store is
  touched; the message of the refusal is the validator's list of issues, which the text
  given here stands for. The task router passes the object \<open>{task_id, assignments}\<close>.
  An accepted array is inserted: the rows get new ids in the order given, the origin the
  column defaults to, and are returned.
\<close>

datatype createMany_input =
    InputArray "NewAssignment list"
  | InputObject int "NewAssignment list"

definition row_accepted :: "NewAssignment \<Rightarrow> bool" where
  "row_accepted n \<longleftrightarrow>
     na_task_id n \<noteq> None
     \<and> (case na_document_id n of Number v \<Rightarrow> True | _ \<Rightarrow> False)
     \<and> na_annotator_id n \<noteq> None"

definition assignment_row :: "string \<Rightarrow> int \<Rightarrow> NewAssignment \<Rightarrow> Assignment" where
  "assignment_row origin i n =
     \<lparr>as_id = i,
      as_task_id = (case na_task_id n of Some v \<Rightarrow> v | None \<Rightarrow> 0),
      as_document_id = (case na_document_id n of Number v \<Rightarrow> v | _ \<Rightarrow> 0),
      as_annotator_id = na_annotator_id n, as_annotator_number = na_annotator_number n,
      as_status = na_status n, as_seq_pos = na_seq_pos n,
      as_difficulty_rating = na_difficulty_rating n, as_origin = origin\<rparr>"

definition assignment_createMany ::
  "db \<Rightarrow> createMany_input \<Rightarrow> (error + Assignment list) \<times> db" where
  "assignment_createMany d input =
     (case input of
        InputObject task_id rows \<Rightarrow>
          (Inl (TRPCError BAD_REQUEST ''Expected array, received object''), d)
      | InputArray rows \<Rightarrow>
          if list_ex (\<lambda>n. \<not> row_accepted n) rows then
            (Inl (TRPCError BAD_REQUEST ''Invalid input''), d)
          else
            (let created = map (\<lambda>(i, n). assignment_row (origin_default d) i n)
                   (with_ids (fresh_id (map as_id (assignments d))) rows);
                 r = select_many created
             in if res_error r \<noteq> None then
                  (Inl (TRPCError INTERNAL_SERVER_ERROR
                     (''Error in createMany: '' @ err_msg (res_error r))), d)
                else
                  (Inr (case res_data r of Some rows \<Rightarrow> rows | None \<Rightarrow> []),
                   d\<lparr>assignments := assignments d @ created\<rparr>)))"

definition annotation_row :: "int \<Rightarrow> NewAnnotation \<Rightarrow> Annotation" where
  "annotation_row i n =
     \<lparr>an_id = i, an_assignment_id = (case nn_assignment_id n of Some v \<Rightarrow> v | None \<Rightarrow> 0),
      an_label = nn_label n, an_start_index = nn_start_index n,
      an_end_index = nn_end_index n, an_text = nn_text n, an_ls_id = nn_ls_id n,
      an_origin = nn_origin n, an_confidence_rating = nn_confidence_rating n\<rparr>"

definition relation_row :: "int \<Rightarrow> NewRelation \<Rightarrow> Relation" where
  "relation_row i n =
     \<lparr>rl_id = i, rl_direction = nr_direction n,
      rl_from_id = (case nr_from_id n of Some v \<Rightarrow> v | None \<Rightarrow> 0),
      rl_to_id = (case nr_to_id n of Some v \<Rightarrow> v | None \<Rightarrow> 0),
      rl_labels = nr_labels n, rl_ls_from = nr_ls_from n, rl_ls_to = nr_ls_to n\<rparr>"

text \<open>
  Modelled from the spec: the annotation router (\<open>findAnnotationsByTask\<close>,
  \<open>createMany\<close>) is not among the sources. The annotations of a task are those owned by
  the task's assignments, in the order of their ids; the batch insert gives new ids in
  the order given, returns the rows in that order, and refuses a row without owning
  assignment.
\<close>

definition findAnnotationsByTask :: "db \<Rightarrow> int \<Rightarrow> error + Annotation list" where
  "findAnnotationsByTask d task_id =
     Inr (sort_key an_id (filter (\<lambda>n. an_assignment_id n \<in>
            as_id ` set (filter (\<lambda>a. as_task_id a = task_id) (assignments d)))
          (annotations d)))"

definition annotation_createMany ::
  "db \<Rightarrow> NewAnnotation list \<Rightarrow> (error + Annotation list) \<times> db" where
  "annotation_createMany d rows =
     (if list_ex (\<lambda>n. nn_assignment_id n = None) rows then
        (Inl (TRPCError BAD_REQUEST ''assignment_id: Required''), d)
      else
        (let created = map (\<lambda>(i, n). annotation_row i n)
               (with_ids (fresh_id (map an_id (annotations d))) rows)
         in (Inr created, d\<lparr>annotations := annotations d @ created\<rparr>)))"

text \<open>
  Modelled from the spec: the relation router (\<open>findRelationsByTask\<close>, \<open>createMany\<close>)
  is not among the sources. The relations of a task are those leaving an annotation of
  the task, in the order of their ids; the batch insert gives new ids in the order given,
  returns the rows in that order, and refuses a row with an undefined end.
\<close>

definition findRelationsByTask :: "db \<Rightarrow> int \<Rightarrow> error + Relation list" where
  "findRelationsByTask d task_id =
     Inr (sort_key rl_id (filter (\<lambda>r. rl_from_id r \<in>
            an_id ` set (filter (\<lambda>n. an_assignment_id n \<in>
              as_id ` set (filter (\<lambda>a. as_task_id a = task_id) (assignments d)))
            (annotations d)))
          (annotation_relations d)))"

definition relation_createMany ::
  "db \<Rightarrow> NewRelation list \<Rightarrow> (error + Relation list) \<times> db" where
  "relation_createMany d rows =
     (if list_ex (\<lambda>n. nr_from_id n = None \<or> nr_to_id n = None) rows then
        (Inl (TRPCError BAD_REQUEST ''from_id, to_id: Required''), d)
      else
        (let created = map (\<lambda>(i, n). relation_row i n)
               (with_ids (fresh_id (map rl_id (annotation_relations d))) rows)
         in (Inr created, d\<lparr>annotation_relations := annotation_relations d @ created\<rparr>)))"

text \<open>
  The mapping tables: \<open>new.map((na, index) => { dic[old[index].id] = na.id })\<close>. Reading
  \<open>old[index].id\<close> past the end of \<open>old\<close> is a TypeError; a key written twice keeps the
  later value.
\<close>

fun build_dic :: "int list \<Rightarrow> int list \<Rightarrow> nat \<Rightarrow> (int \<rightharpoonup> int) \<Rightarrow> error + (int \<rightharpoonup> int)" where
  "build_dic old_ids [] index dic = Inr dic"
| "build_dic old_ids (na # rest) index dic =
     (if index < length old_ids
      then build_dic old_ids rest (Suc index) (dic(old_ids ! index \<mapsto> na))
      else Inl (TypeError ''Cannot read properties of undefined''))"

text \<open>
  \<open>replicateTask\<close>: the task, then its assignments, then the annotations with their
  owner looked up in \<open>dicAssignments\<close>, then the relations with their ends looked up in
  \<open>dicAnnotations\<close>. Nothing is rolled back when a step throws. The fetched lists
  are \<open>assignments\<close>, \<open>annotations\<close> and \<open>relations\<close> in the source. The batch of
  assignments is passed to \<open>createMany\<close> as the object \<open>{task_id, assignments}\<close>.
\<close>

definition replicateTask :: "db \<Rightarrow> int \<Rightarrow> (error + Task) \<times> db" where
  "replicateTask d task_id =
     (case task_findById d task_id of
        Inl err \<Rightarrow> (Inl err, d)
      | Inr task \<Rightarrow>
     (case task_create d task of
        (Inl err, d1) \<Rightarrow> (Inl err, d1)
      | (Inr new_task, d1) \<Rightarrow>
     (case findAssignmentsByTask d1 task_id of
        Inl err \<Rightarrow> (Inl err, d1)
      | Inr task_assignments \<Rightarrow>
     (case assignment_createMany d1 (InputObject (tk_id new_task)
             (map (\<lambda>a. \<lparr>na_task_id = None, na_document_id = Number (as_document_id a),
                         na_annotator_id = as_annotator_id a,
                         na_annotator_number = as_annotator_number a,
                         na_status = as_status a, na_origin = as_origin a,
                         na_seq_pos = as_seq_pos a,
                         na_difficulty_rating = as_difficulty_rating a\<rparr>) task_assignments)) of
        (Inl err, d2) \<Rightarrow> (Inl err, d2)
      | (Inr new_assignments, d2) \<Rightarrow>
     (case build_dic (map as_id task_assignments) (map as_id new_assignments) 0 Map.empty of
        Inl err \<Rightarrow> (Inl err, d2)
      | Inr dicAssignments \<Rightarrow>
     (case findAnnotationsByTask d2 task_id of
        Inl err \<Rightarrow> (Inl err, d2)
      | Inr task_annotations \<Rightarrow>
     (case annotation_createMany d2
             (map (\<lambda>a. \<lparr>nn_assignment_id = dicAssignments (an_assignment_id a),
                         nn_label = an_label a, nn_start_index = an_start_index a,
                         nn_end_index = an_end_index a, nn_text = an_text a,
                         nn_ls_id = an_ls_id a, nn_origin = an_origin a,
                         nn_confidence_rating = an_confidence_rating a\<rparr>) task_annotations) of
        (Inl err, d3) \<Rightarrow> (Inl err, d3)
      | (Inr new_annotations, d3) \<Rightarrow>
     (case findRelationsByTask d3 task_id of
        Inl err \<Rightarrow> (Inl err, d3)
      | Inr task_relations \<Rightarrow>
     (case build_dic (map an_id task_annotations) (map an_id new_annotations) 0 Map.empty of
        Inl err \<Rightarrow> (Inl err, d3)
      | Inr dicAnnotations \<Rightarrow>
     (case relation_createMany d3
             (map (\<lambda>a. \<lparr>nr_direction = rl_direction a,
                         nr_from_id = dicAnnotations (rl_from_id a),
                         nr_to_id = dicAnnotations (rl_to_id a),
                         nr_labels = rl_labels a, nr_ls_from = rl_ls_from a,
                         nr_ls_to = rl_ls_to a\<rparr>) task_relations) of
        (Inl err, d4) \<Rightarrow> (Inl err, d4)
      | (Inr new_relations, d4) \<Rightarrow> (Inr new_task, d4)))))))))))"

section \<open>Task merger (task router)\<close>

record RichAssignment =
  ra_assignment :: Assignment
  ra_documents :: "Document option"

text \<open>
  Modelled from the spec: \<open>findRichAssignmentsByTask\<close> is not among the sources. It
  returns the assignments of the task, each joined with its document (null when no
  document row has the referenced id), in the order of their ids.
\<close>

definition findRichAssignmentsByTask :: "db \<Rightarrow> int \<Rightarrow> error + RichAssignment list" where
  "findRichAssignmentsByTask d task_id =
     Inr (map (\<lambda>a. \<lparr>ra_assignment = a,
                     ra_documents = find (\<lambda>doc. dc_id doc = as_document_id a) (documents d)\<rparr>)
            (sort_key as_id (filter (\<lambda>a. as_task_id a = task_id) (assignments d))))"

text \<open>The key \<open>a.documents?.name!\<close>: the name, or the text of \<open>undefined\<close> when the
  join is null.\<close>

definition documents_name :: "RichAssignment \<Rightarrow> string" where
  "documents_name a = (case ra_documents a of None \<Rightarrow> ''undefined'' | Some doc \<Rightarrow> dc_name doc)"

text \<open>
  \<open>name2Id\<close>, a plain object: a document name that is not \<open>in\<close> it yet gets the
  document id of the assignment, so the first assignment with a name decides, and a name
  that \<open>Object.prototype\<close> has is never entered.
\<close>

fun build_name2Id :: "RichAssignment list \<Rightarrow> (string \<rightharpoonup> int) \<Rightarrow> (string \<rightharpoonup> int)" where
  "build_name2Id [] name2Id = name2Id"
| "build_name2Id (a # rest) name2Id =
     (if \<not> js_in (documents_name a) name2Id
      then build_name2Id rest (name2Id(documents_name a \<mapsto> as_document_id (ra_assignment a)))
      else build_name2Id rest name2Id)"

fun error_text :: "error \<Rightarrow> string" where
  "error_text (TRPCError code msg) = ''TRPCError: '' @ msg"
| "error_text (TypeError msg) = ''TypeError: '' @ msg"
| "error_text (Error msg) = ''Error: '' @ msg"

definition mergeTasks_catch :: "error \<Rightarrow> error" where
  "mergeTasks_catch err = TRPCError INTERNAL_SERVER_ERROR (''Error in mergeTasks: '' @ error_text err)"

definition mergeTasks :: "db \<Rightarrow> int \<Rightarrow> int \<Rightarrow> (error + Task) \<times> db" where
  "mergeTasks d originalTaskId similarTaskId =
     (case replicateTask d originalTaskId of
        (Inl err, d1) \<Rightarrow> (Inl (mergeTasks_catch err), d1)
      | (Inr mergedTask, d1) \<Rightarrow>
     (case findRichAssignmentsByTask d1 originalTaskId of
        Inl err \<Rightarrow> (Inl (mergeTasks_catch err), d1)
      | Inr originalAssignments \<Rightarrow>
     (case findRichAssignmentsByTask d1 similarTaskId of
        Inl err \<Rightarrow> (Inl (mergeTasks_catch err), d1)
      | Inr similarAssignments \<Rightarrow>
     (let name2Id = build_name2Id originalAssignments Map.empty;
          newAssignments = map (\<lambda>a.
            \<lparr>na_task_id = Some (tk_id mergedTask),
             na_document_id = js_get name2Id (documents_name a),
             na_annotator_id = as_annotator_id (ra_assignment a),
             na_annotator_number = as_annotator_number (ra_assignment a),
             na_status = as_status (ra_assignment a),
             na_origin = as_origin (ra_assignment a),
             na_seq_pos = as_seq_pos (ra_assignment a),
             na_difficulty_rating = as_difficulty_rating (ra_assignment a)\<rparr>) similarAssignments
      in case assignment_createMany d1 (InputObject (tk_id mergedTask) newAssignments) of
           (Inl err, d2) \<Rightarrow> (Inl (mergeTasks_catch err), d2)
         | (Inr created, d2) \<Rightarrow> (Inr mergedTask, d2)))))"

section \<open>Describing the effect of a re-binding\<close>

text \<open>
  Words for the statements below, not part of the routers. The store accepts the update
  of row \<open>i\<close> when it does not reject it and exactly one row has that id (what
  \<open>single\<close> asks). \<open>rebound\<close> is the table after re-binding the accepted rows among
  the fetched ones. \<open>slot_assignments\<close> is what \<open>findAssignmentsByTaskAndUser\<close> returns
  for a task and a slot number alone.
\<close>

definition update_accepted :: "env \<Rightarrow> Assignment list \<Rightarrow> string option \<Rightarrow> int \<Rightarrow> bool" where
  "update_accepted e rows new_user i \<longleftrightarrow>
     update_rejected e i (no_updates\<lparr>up_annotator_id := Some new_user\<rparr>) = None
     \<and> length (filter (\<lambda>a. as_id a = i) rows) = 1"

definition rebound :: "env \<Rightarrow> string option \<Rightarrow> Assignment list \<Rightarrow> Assignment list \<Rightarrow> Assignment list" where
  "rebound e new_user asgs rows =
     map (\<lambda>a. if as_id a \<in> as_id ` set asgs \<and> update_accepted e rows new_user (as_id a)
               then a\<lparr>as_annotator_id := new_user\<rparr> else a) rows"

definition slot_assignments :: "db \<Rightarrow> int \<Rightarrow> int \<Rightarrow> Assignment list" where
  "slot_assignments d task_id n =
     sort_key as_id
       (if n \<noteq> 0
        then filter (\<lambda>a. as_annotator_number a = n) (filter (\<lambda>a. as_task_id a = task_id) (assignments d))
        else filter (\<lambda>a. as_task_id a = task_id) (assignments d))"

text \<open>
  \<open>state_before\<close> is where the outer loop stands when it reaches slot \<open>i\<close>: the result
  of the loop over the slots before \<open>i\<close>. A changed slot resolves (\<open>slot_resolves\<close>) when
  its email is empty or the user resolution returns; \<open>slot_new_user\<close> is the binding it then
  asks for: null for an empty email, else the user the email resolves to. \<open>slot_tally\<close>
  counts, for slot \<open>i\<close> of a run, the updates the store accepts and the updates it
  refuses among the assignments fetched for the slot, in the store as the earlier slots
  left it. No update is attempted at a slot the run does not reach, at a slot whose email
  is unchanged, or at a slot that does not resolve.
\<close>

definition state_before ::
  "env \<Rightarrow> int \<Rightarrow> string list \<Rightarrow> world \<Rightarrow> nat \<Rightarrow> (error + Annotator list \<times> stats) \<times> world" where
  "state_before e task_id new_emails w0 i =
     updateAssignees_loop e task_id (take i new_emails) 0
       (get_all_annotators_from_task (store w0) task_id) \<lparr>success = 0, failed = 0\<rparr> w0"

definition slot_resolves :: "env \<Rightarrow> int \<Rightarrow> string \<Rightarrow> world \<Rightarrow> bool" where
  "slot_resolves e task_id email w =
     (if email = [] then True
      else case fst (assignUserToTask e w email task_id) of
             Inr user_id \<Rightarrow> True
           | Inl err \<Rightarrow> False)"

definition slot_new_user :: "env \<Rightarrow> int \<Rightarrow> string \<Rightarrow> world \<Rightarrow> string option" where
  "slot_new_user e task_id email w =
     (if email = [] then None
      else case fst (assignUserToTask e w email task_id) of
             Inr user_id \<Rightarrow> Some user_id
           | Inl err \<Rightarrow> None)"

definition slot_tally :: "env \<Rightarrow> int \<Rightarrow> string list \<Rightarrow> world \<Rightarrow> nat \<Rightarrow> nat \<times> nat" where
  "slot_tally e task_id new_emails w0 i =
     (case state_before e task_id new_emails w0 i of
        (Inl err, w) \<Rightarrow> (0, 0)
      | (Inr (annotators, st), w) \<Rightarrow>
          if length annotators \<le> i then (0, 0)
          else if Some (new_emails ! i) = ar_email (annotators ! i) then (0, 0)
          else if \<not> slot_resolves e task_id (new_emails ! i) w then (0, 0)
          else
            (let fetched = slot_assignments (store w) task_id
                   (ar_annotator_number (annotators ! i));
                 new_user = slot_new_user e task_id (new_emails ! i) w
             in (length (filter (\<lambda>a. update_accepted e (assignments (store w)) new_user
                                     (as_id a)) fetched),
                 length (filter (\<lambda>a. \<not> update_accepted e (assignments (store w)) new_user
                                     (as_id a)) fetched))))"

section \<open>Example stores\<close>

definition asg :: "int \<Rightarrow> int \<Rightarrow> int \<Rightarrow> string option \<Rightarrow> int \<Rightarrow> AssignmentStatuses \<Rightarrow> int \<Rightarrow> Assignment" where
  "asg i t doc u n s p =
     \<lparr>as_id = i, as_task_id = t, as_document_id = doc, as_annotator_id = u,
      as_annotator_number = n, as_status = s, as_seq_pos = p, as_difficulty_rating = 0,
      as_origin = ''manual''\<rparr>"

definition empty_db :: db where
  "empty_db = \<lparr>tasks = [], assignments = [], annotations = [], annotation_relations = [],
     users = [], documents = [], origin_default = ''manual''\<rparr>"

text \<open>One annotator with two done and three pending assignments in task 1; the earliest
  pending one has sequence position 5.\<close>

definition queue_db :: db where
  "queue_db = empty_db\<lparr>assignments :=
     [asg 1 1 10 (Some ''u1'') 1 Pending 7,
      asg 2 1 11 (Some ''u1'') 1 Done 3,
      asg 3 1 12 (Some ''u1'') 1 Pending 5,
      asg 4 1 13 (Some ''u1'') 1 Done 4,
      asg 5 1 14 (Some ''u1'') 1 Pending 6,
      asg 6 2 10 (Some ''u1'') 1 Pending 9,
      asg 7 1 10 (Some ''u2'') 2 Pending 1]\<rparr>"

definition task1 :: Task where
  "task1 = \<lparr>tk_id = 1, tk_name = ''contracts'', tk_desc = ''clauses'', tk_project_id = 1,
     tk_labelset_id = 1, tk_ann_guidelines = [], tk_ml_model_id = None,
     tk_annotation_level = ''word''\<rparr>"

definition team_db :: db where
  "team_db = empty_db\<lparr>
     tasks := [task1],
     users := [\<lparr>us_id = ''u1'', us_email = ''a@x.org'', us_role = None\<rparr>,
               \<lparr>us_id = ''u2'', us_email = ''b@x.org'', us_role = None\<rparr>,
               \<lparr>us_id = ''u3'', us_email = ''c@x.org'', us_role = None\<rparr>],
     assignments :=
       [asg 1 1 10 (Some ''u1'') 1 Pending 1,
        asg 2 1 11 (Some ''u1'') 1 Done 2,
        asg 3 1 10 (Some ''u2'') 2 Pending 1,
        asg 4 1 11 (Some ''u2'') 2 Pending 2]\<rparr>"

definition world_of :: "db \<Rightarrow> world" where
  "world_of d = \<lparr>store = d, invite_calls = [], metadata_calls = [], mail_calls = []\<rparr>"

definition ok_env :: env where
  "ok_env = \<lparr>inviteUserByEmail = (\<lambda>email. Inr (''id-'' @ email)), mailtrapToken = ''token'',
     send_success = (\<lambda>recipient. True), update_rejected = (\<lambda>i u. None)\<rparr>"

definition strict_env :: env where
  "strict_env = ok_env\<lparr>update_rejected := (\<lambda>i u. if i = 2 then Some ''denied'' else None)\<rparr>"

definition closed_env :: env where
  "closed_env = ok_env\<lparr>inviteUserByEmail := (\<lambda>email. Inl ''invitations are closed'')\<rparr>"


definition slot0_db :: db where
  "slot0_db = team_db\<lparr>assignments :=
       [asg 1 1 10 (Some ''u1'') 0 Pending 1,
        asg 2 1 10 (Some ''u2'') 1 Pending 1]\<rparr>"

definition ann :: "int \<Rightarrow> int \<Rightarrow> string \<Rightarrow> int \<Rightarrow> int \<Rightarrow> Annotation" where
  "ann i a l s e =
     \<lparr>an_id = i, an_assignment_id = a, an_label = l, an_start_index = s, an_end_index = e,
      an_text = ''text'', an_ls_id = ''ls'', an_origin = ''manual'', an_confidence_rating = 3\<rparr>"

definition rel :: "int \<Rightarrow> int \<Rightarrow> int \<Rightarrow> Relation" where
  "rel i f t =
     \<lparr>rl_id = i, rl_direction = ''right'', rl_from_id = f, rl_to_id = t,
      rl_labels = [''Implies''], rl_ls_from = ''ls'', rl_ls_to = ''ls''\<rparr>"

text \<open>Two tasks over documents with the same names X and Y held in different rows;
  task 1 has three annotations and one relation.\<close>

definition lab_db :: db where
  "lab_db = empty_db\<lparr>
     tasks := [task1, task1\<lparr>tk_id := 2, tk_name := ''contracts again''\<rparr>],
     users := [\<lparr>us_id = ''u1'', us_email = ''a@x.org'', us_role = None\<rparr>,
               \<lparr>us_id = ''u2'', us_email = ''b@x.org'', us_role = None\<rparr>],
     documents := [\<lparr>dc_id = 10, dc_name = ''X''\<rparr>, \<lparr>dc_id = 11, dc_name = ''Y''\<rparr>,
                   \<lparr>dc_id = 20, dc_name = ''X''\<rparr>, \<lparr>dc_id = 21, dc_name = ''Y''\<rparr>],
     assignments :=
       [asg 1 1 10 (Some ''u1'') 1 Done 1,
        asg 2 1 11 (Some ''u1'') 1 Pending 2,
        asg 3 2 20 (Some ''u2'') 1 Pending 1,
        asg 4 2 21 (Some ''u2'') 1 Pending 2],
     annotations := [ann 1 1 ''party'' 0 5, ann 2 1 ''duty'' 7 12, ann 3 2 ''party'' 3 9,
                     ann 4 3 ''duty'' 1 2],
     annotation_relations := [rel 1 1 2]\<rparr>"

section \<open>Properties\<close>

lemma hd_sort_key_least:
  fixes f :: "'a \<Rightarrow> 'k::linorder"
  assumes "xs \<noteq> []"
  shows "hd (sort_key f xs) \<in> set xs \<and> (\<forall>b\<in>set xs. f (hd (sort_key f xs)) \<le> f b)"
proof -
  have "sort_key f xs \<noteq> []" using assms by (metis length_0_conv length_sort)
  then obtain y ys where ys: "sort_key f xs = y # ys" by (cases "sort_key f xs") auto
  have "sorted (map f (y # ys))" using sorted_sort_key [of f xs] ys by simp
  then have le: "\<forall>z\<in>set ys. f y \<le> f z" by simp
  have st: "set xs = set (y # ys)" using set_sort [of f xs] ys by simp
  show ?thesis using ys le st by auto
qed

lemma hd_sort_key_Min:
  fixes f :: "'a \<Rightarrow> 'k::linorder"
  assumes "xs \<noteq> []"
  shows "f (hd (sort_key f xs)) = Min (f ` set xs)"
proof -
  have "Min (f ` set xs) = f (hd (sort_key f xs))"
  proof (rule Min_eqI)
    show "finite (f ` set xs)" by simp
    show "f (hd (sort_key f xs)) \<in> f ` set xs"
      using hd_sort_key_least [OF assms, of f] by simp
    fix v assume "v \<in> f ` set xs"
    then show "f (hd (sort_key f xs)) \<le> v"
      using hd_sort_key_least [OF assms, of f] by auto
  qed
  then show ?thesis by simp
qed

lemma sort_key_Nil_iff: "sort_key f xs = [] \<longleftrightarrow> xs = []"
  by (metis length_0_conv length_sort)

lemma maybeSingle_take1:
  "maybeSingle (take (Suc 0) xs) =
     \<lparr>res_data = (if xs = [] then None else Some (hd xs)), res_error = None, res_count = None\<rparr>"
  by (cases xs) (simp_all add: maybeSingle_def)

text \<open>
  C10. The four tests of the classification cover every pair of counters, exactly one of
  them holds, and the throw after the chain (\<open>Undefined case\<close>) is never reached.
\<close>

theorem classify_exhaustive:
  "classify st anns \<noteq> Inl (TRPCError INTERNAL_SERVER_ERROR ''Undefined case'')
   \<and> (let s = (success st \<noteq> 0); f = (failed st \<noteq> 0);
          b1 = (s \<and> \<not> f); b2 = (\<not> s \<and> \<not> f); b3 = (s \<and> f); b4 = (\<not> s \<and> f)
      in (b1 \<or> b2 \<or> b3 \<or> b4)
         \<and> \<not> (b1 \<and> b2) \<and> \<not> (b1 \<and> b3) \<and> \<not> (b1 \<and> b4)
         \<and> \<not> (b2 \<and> b3) \<and> \<not> (b2 \<and> b4) \<and> \<not> (b3 \<and> b4))"
  by (auto simp: classify_def Let_def)

theorem classify_exhaustive_witness:
  "classify \<lparr>success = 2, failed = 1\<rparr> []
     = Inl (TRPCError INTERNAL_SERVER_ERROR ''Some assignment updates failed'')
   \<and> classify \<lparr>success = 2, failed = 1\<rparr> []
     \<noteq> Inl (TRPCError INTERNAL_SERVER_ERROR ''Undefined case'')"
  using classify_exhaustive [of "\<lparr>success = 2, failed = 1\<rparr>" "[]"]
  by (simp add: classify_def)

text \<open>
  C2. \<open>countAssignmentsByUserAndTask\<close> returns \<open>total\<close>, the number of all the
  annotator's assignments in the task, and \<open>next\<close>, the lowest sequence position among
  the pending ones, or \<open>total + 1\<close> when none is pending; with no assignment at all the
  result is \<open>{next: 1, total: 0}\<close>.
\<close>

theorem countAssignmentsByUserAndTask_next_total:
  fixes d :: db and a :: string and t :: int
  defines "mine \<equiv> filter (\<lambda>x. as_annotator_id x = Some a \<and> as_task_id x = t) (assignments d)"
  defines "pend \<equiv> filter (\<lambda>x. as_status x = Pending) mine"
  shows "countAssignmentsByUserAndTask d a t =
           Inr \<lparr>nt_next = (if pend = [] then int (length mine) + 1
                           else Min (as_seq_pos ` set pend)),
                nt_total = int (length mine)\<rparr>
         \<and> (mine = [] \<longrightarrow>
              countAssignmentsByUserAndTask d a t = Inr \<lparr>nt_next = 1, nt_total = 0\<rparr>)"
proof -
  let ?q = "filter (\<lambda>x. as_task_id x = t) (filter (\<lambda>x. as_annotator_id x = Some a) (assignments d))"
  have q: "?q = mine" by (simp add: mine_def conj_commute)
  have p: "filter (\<lambda>x. as_status x = Pending) mine = pend" unfolding pend_def by (rule refl)
  have main: "countAssignmentsByUserAndTask d a t =
           Inr \<lparr>nt_next = (if pend = [] then int (length mine) + 1
                           else Min (as_seq_pos ` set pend)),
                nt_total = int (length mine)\<rparr>"
    unfolding countAssignmentsByUserAndTask_def p q
    by (simp add: maybeSingle_take1 count_exact_head_def Let_def sort_key_Nil_iff
        hd_sort_key_Min del: set_filter)
  moreover have "mine = [] \<Longrightarrow> pend = []" by (simp add: pend_def)
  ultimately show ?thesis by auto
qed

theorem countAssignmentsByUserAndTask_next_total_witness:
  "countAssignmentsByUserAndTask queue_db ''u1'' 1 = Inr \<lparr>nt_next = 5, nt_total = 5\<rparr>
   \<and> countAssignmentsByUserAndTask queue_db ''u3'' 1 = Inr \<lparr>nt_next = 1, nt_total = 0\<rparr>"
proof -
  note t1 = countAssignmentsByUserAndTask_next_total
    [where d = queue_db and a = "''u1''" and t = 1, THEN conjunct1]
  note t3 = countAssignmentsByUserAndTask_next_total
    [where d = queue_db and a = "''u3''" and t = 1, THEN conjunct2, THEN mp]
  have none: "filter (\<lambda>x. as_annotator_id x = Some ''u3'' \<and> as_task_id x = 1)
      (assignments queue_db) = []"
    by code_simp
  have "countAssignmentsByUserAndTask queue_db ''u1'' 1 = Inr \<lparr>nt_next = 5, nt_total = 5\<rparr>"
    by (rule trans [OF t1]) code_simp
  moreover have "countAssignmentsByUserAndTask queue_db ''u3'' 1 = Inr \<lparr>nt_next = 1, nt_total = 0\<rparr>"
    by (rule t3 [OF none])
  ultimately show ?thesis by (rule conjI)
qed

text \<open>
  C8. \<open>findNextAssignmentByUser\<close> never raises: it returns null when the annotator has
  no pending assignment, and otherwise one pending assignment of the annotator that
  comes first by task identifier descending, then sequence position ascending; any
  other pending assignment that also comes first has the same task and position.
\<close>

theorem findNextAssignmentByUser_first:
  fixes d :: db and u :: string
  defines "pend \<equiv> filter (\<lambda>x. as_annotator_id x = Some u \<and> as_status x = Pending) (assignments d)"
  shows "\<exists>r. findNextAssignmentByUser d u = Inr r
           \<and> (r = None \<longleftrightarrow> pend = [])
           \<and> (\<forall>a. r = Some a \<longrightarrow>
                 a \<in> set pend
                 \<and> (\<forall>b\<in>set pend. as_task_id b < as_task_id a
                        \<or> (as_task_id b = as_task_id a \<and> as_seq_pos a \<le> as_seq_pos b))
                 \<and> (\<forall>c\<in>set pend.
                       (\<forall>b\<in>set pend. as_task_id b < as_task_id c
                          \<or> (as_task_id b = as_task_id c \<and> as_seq_pos c \<le> as_seq_pos b))
                       \<longrightarrow> as_task_id c = as_task_id a \<and> as_seq_pos c = as_seq_pos a))"
proof -
  let ?k = "\<lambda>x. (- as_task_id x, as_seq_pos x)"
  let ?q = "filter (\<lambda>x. as_status x = Pending) (filter (\<lambda>x. as_annotator_id x = Some u) (assignments d))"
  have q: "?q = pend" by (simp add: pend_def conj_commute)
  have res: "findNextAssignmentByUser d u =
      Inr (if pend = [] then None else Some (hd (sort_key ?k pend)))"
    unfolding findNextAssignmentByUser_def q
    by (simp add: maybeSingle_take1 Let_def sort_key_Nil_iff)
  show ?thesis
  proof (cases "pend = []")
    case True
    then show ?thesis using res by simp
  next
    case False
    let ?a = "hd (sort_key ?k pend)"
    have least: "?a \<in> set pend" "\<forall>b\<in>set pend. ?k ?a \<le> ?k b"
      using hd_sort_key_least [OF False, of ?k] by simp_all
    have first: "\<forall>b\<in>set pend. as_task_id b < as_task_id ?a
        \<or> (as_task_id b = as_task_id ?a \<and> as_seq_pos ?a \<le> as_seq_pos b)"
      using least(2) by (auto simp: less_eq_prod_def)
    have uniq: "\<forall>c\<in>set pend.
        (\<forall>b\<in>set pend. as_task_id b < as_task_id c
           \<or> (as_task_id b = as_task_id c \<and> as_seq_pos c \<le> as_seq_pos b))
        \<longrightarrow> as_task_id c = as_task_id ?a \<and> as_seq_pos c = as_seq_pos ?a"
    proof (intro ballI impI)
      fix c assume c: "c \<in> set pend"
        and cf: "\<forall>b\<in>set pend. as_task_id b < as_task_id c
           \<or> (as_task_id b = as_task_id c \<and> as_seq_pos c \<le> as_seq_pos b)"
      from cf least(1) have "as_task_id ?a < as_task_id c
           \<or> (as_task_id ?a = as_task_id c \<and> as_seq_pos c \<le> as_seq_pos ?a)" by blast
      moreover from first c have "as_task_id c < as_task_id ?a
        \<or> (as_task_id c = as_task_id ?a \<and> as_seq_pos ?a \<le> as_seq_pos c)" by blast
      ultimately show "as_task_id c = as_task_id ?a \<and> as_seq_pos c = as_seq_pos ?a"
        by auto
    qed
    have r: "findNextAssignmentByUser d u = Inr (Some ?a)" using res False by simp
    show ?thesis
    proof (rule exI [of _ "Some ?a"], intro conjI allI impI)
      show "findNextAssignmentByUser d u = Inr (Some ?a)" by (rule r)
      show "(Some ?a = None) = (pend = [])" using False by simp
    next
      fix a assume "Some ?a = Some a"
      then have a: "?a = a" by simp
      show "a \<in> set pend" using least(1) unfolding a .
      show "\<forall>b\<in>set pend. as_task_id b < as_task_id a
                        \<or> (as_task_id b = as_task_id a \<and> as_seq_pos a \<le> as_seq_pos b)"
        using first unfolding a .
      show "\<forall>c\<in>set pend.
                       (\<forall>b\<in>set pend. as_task_id b < as_task_id c
                          \<or> (as_task_id b = as_task_id c \<and> as_seq_pos c \<le> as_seq_pos b))
                       \<longrightarrow> as_task_id c = as_task_id a \<and> as_seq_pos c = as_seq_pos a"
        using uniq unfolding a .
    qed
  qed
qed

theorem findNextAssignmentByUser_first_witness:
  "findNextAssignmentByUser queue_db ''u1'' = Inr (Some (asg 6 2 10 (Some ''u1'') 1 Pending 9))
   \<and> findNextAssignmentByUser queue_db ''u3'' = Inr None"
proof -
  have none: "filter (\<lambda>x. as_annotator_id x = Some ''u3'' \<and> as_status x = Pending)
      (assignments queue_db) = []"
    by code_simp
  have "findNextAssignmentByUser queue_db ''u3'' = Inr None"
    using findNextAssignmentByUser_first [where d = queue_db and u = "''u3''"]
    unfolding none by auto
  moreover have "findNextAssignmentByUser queue_db ''u1''
      = Inr (Some (asg 6 2 10 (Some ''u1'') 1 Pending 9))"
    by code_simp
  ultimately show ?thesis by simp
qed

subsection \<open>Reassignment\<close>

lemma apply_rebind [simp]:
  "apply_updates a (no_updates\<lparr>up_annotator_id := Some nu\<rparr>) = a\<lparr>as_annotator_id := nu\<rparr>"
  by (simp add: apply_updates_def no_updates_def)

lemma length_one_iff: "length xs = Suc 0 \<longleftrightarrow> (\<exists>x. xs = [x])"
  by (cases xs) auto

lemma assignment_update_accepted:
  assumes "update_accepted e (assignments (store w)) nu i"
  shows "\<exists>row. assignment_update e w i (no_updates\<lparr>up_annotator_id := Some nu\<rparr>) =
           (Inr row, w\<lparr>store := (store w)\<lparr>assignments :=
              map (\<lambda>a. if as_id a = i then a\<lparr>as_annotator_id := nu\<rparr> else a)
                (assignments (store w))\<rparr>\<rparr>)"
proof -
  from assms obtain x where x: "filter (\<lambda>a. as_id a = i) (assignments (store w)) = [x]"
    by (auto simp: update_accepted_def length_one_iff)
  from assms have r: "update_rejected e i (no_updates\<lparr>up_annotator_id := Some nu\<rparr>) = None"
    by (simp add: update_accepted_def)
  show ?thesis
    unfolding assignment_update_def r x
    by (simp add: single_def)
qed

lemma assignment_update_refused:
  assumes "\<not> update_accepted e (assignments (store w)) nu i"
  shows "\<exists>err. assignment_update e w i (no_updates\<lparr>up_annotator_id := Some nu\<rparr>) = (Inl err, w)"
proof (cases "update_rejected e i (no_updates\<lparr>up_annotator_id := Some nu\<rparr>)")
  case (Some msg)
  then show ?thesis by (simp add: assignment_update_def)
next
  case None
  with assms have n: "length (filter (\<lambda>a. as_id a = i) (assignments (store w))) \<noteq> 1"
    by (simp add: update_accepted_def)
  have "res_data (single (map (\<lambda>a. apply_updates a (no_updates\<lparr>up_annotator_id := Some nu\<rparr>))
           (filter (\<lambda>a. as_id a = i) (assignments (store w))))) = None"
    using n by (cases "filter (\<lambda>a. as_id a = i) (assignments (store w))")
      (auto simp: single_def split: list.splits)
  then show ?thesis using None by (simp add: assignment_update_def Let_def)
qed

lemma filter_id_rebind:
  "filter (\<lambda>a. as_id a = j) (map (\<lambda>a. if P a then a\<lparr>as_annotator_id := nu\<rparr> else a) rows)
     = map (\<lambda>a. if P a then a\<lparr>as_annotator_id := nu\<rparr> else a) (filter (\<lambda>a. as_id a = j) rows)"
  by (induction rows) auto

lemma update_accepted_rebind:
  "update_accepted e (map (\<lambda>a. if P a then a\<lparr>as_annotator_id := nu\<rparr> else a) rows) nu' j
     = update_accepted e rows nu' j"
  by (simp add: update_accepted_def filter_id_rebind)


lemma rebound_Nil: "rebound e nu [] rows = rows"
  by (simp add: rebound_def)

lemma rebound_Cons_accepted:
  assumes "update_accepted e rows nu (as_id x)"
  shows "rebound e nu rest (map (\<lambda>a. if as_id a = as_id x then a\<lparr>as_annotator_id := nu\<rparr> else a) rows)
           = rebound e nu (x # rest) rows"
  using assms
  unfolding rebound_def update_accepted_rebind
  by (auto simp: map_idI)

lemma rebound_Cons_refused:
  assumes "\<not> update_accepted e rows nu (as_id x)"
  shows "rebound e nu (x # rest) rows = rebound e nu rest rows"
  using assms unfolding rebound_def by auto

lemma rebind_all_char:
  "rebind_all e nu asgs st w =
     (st\<lparr>success := success st
            + length (filter (\<lambda>a. update_accepted e (assignments (store w)) nu (as_id a)) asgs),
         failed := failed st
            + length (filter (\<lambda>a. \<not> update_accepted e (assignments (store w)) nu (as_id a)) asgs)\<rparr>,
      w\<lparr>store := (store w)\<lparr>assignments := rebound e nu asgs (assignments (store w))\<rparr>\<rparr>)"
proof (induction asgs arbitrary: st w)
  case Nil
  show ?case by (simp add: rebound_Nil)
next
  case (Cons x rest)
  show ?case
  proof (cases "update_accepted e (assignments (store w)) nu (as_id x)")
    case True
    from assignment_update_accepted [OF True] obtain row where
      u: "assignment_update e w (as_id x) (no_updates\<lparr>up_annotator_id := Some nu\<rparr>) =
           (Inr row, w\<lparr>store := (store w)\<lparr>assignments :=
              map (\<lambda>a. if as_id a = as_id x then a\<lparr>as_annotator_id := nu\<rparr> else a)
                (assignments (store w))\<rparr>\<rparr>)" by blast
    show ?thesis
      using True
      by (simp add: u Cons.IH update_accepted_rebind rebound_Cons_accepted)
  next
    case False
    from assignment_update_refused [OF False] obtain err where
      u: "assignment_update e w (as_id x) (no_updates\<lparr>up_annotator_id := Some nu\<rparr>) = (Inl err, w)"
      by blast
    show ?thesis
      using False
      by (simp add: u Cons.IH rebound_Cons_refused)
  qed
qed


lemma findAssignmentsByTaskAndUser_number:
  "findAssignmentsByTaskAndUser d
     \<lparr>in_annotator_id = None, in_annotator_number = Some n, in_task_id = t\<rparr>
   = Inr (slot_assignments d t n)"
  by (simp add: findAssignmentsByTaskAndUser_def slot_assignments_def truthy_string_def
      truthy_number_def select_many_def Let_def)

lemma assignUserToTask_frame:
  assumes "assignUserToTask e w email t = (r, w1)"
  shows "assignments (store w1) = assignments (store w) \<and> tasks (store w1) = tasks (store w)"
  using assms
  by (auto simp: assignUserToTask_def Let_def handle_new_user_def
      split: option.splits sum.splits if_splits)

lemma assignUserToTask_concrete:
  assumes "assignUserToTask e w email t = (Inr user_id, w1)"
  shows "user_id \<noteq> []"
  using assms
  by (auto simp: assignUserToTask_def Let_def split: option.splits sum.splits if_splits)

lemma slot_empty_email:
  assumes "new_emails ! i = []"
  shows "updateAssignees_slot e t new_emails i annotators st w =
     (Inr (annotators[i := (annotators ! i)\<lparr>ar_email := Some []\<rparr>],
           fst (rebind_all e None (slot_assignments (store w) t (ar_annotator_number (annotators ! i))) st w)),
      w\<lparr>store := (store w)\<lparr>assignments :=
           rebound e None (slot_assignments (store w) t (ar_annotator_number (annotators ! i)))
             (assignments (store w))\<rparr>\<rparr>)"
  using assms
  by (simp add: updateAssignees_slot_def findAssignmentsByTaskAndUser_number rebind_all_char)

lemma slot_resolution_fails:
  assumes "i < length new_emails" "new_emails ! i \<noteq> []"
    and "assignUserToTask e w (new_emails ! i) t = (Inl err, w1)"
  shows "updateAssignees_slot e t new_emails i annotators st w = (Inl err, w1)"
  using assms
  by (auto simp: updateAssignees_slot_def findAssignmentsByTaskAndUser_number)

lemma slot_resolution_ok:
  assumes "i < length new_emails" "new_emails ! i \<noteq> []"
    and "assignUserToTask e w (new_emails ! i) t = (Inr user_id, w1)"
  shows "updateAssignees_slot e t new_emails i annotators st w =
     (Inr (annotators[i := (annotators ! i)\<lparr>ar_email := Some (new_emails ! i)\<rparr>],
           fst (rebind_all e (Some user_id)
                  (slot_assignments (store w) t (ar_annotator_number (annotators ! i))) st w1)),
      w1\<lparr>store := (store w1)\<lparr>assignments :=
           rebound e (Some user_id) (slot_assignments (store w) t (ar_annotator_number (annotators ! i)))
             (assignments (store w))\<rparr>\<rparr>)"
proof -
  have a: "assignments (store w1) = assignments (store w)"
    using assignUserToTask_frame [OF assms(3)] by simp
  have ne: "new_emails \<noteq> []" using assms(1) by auto
  show ?thesis
    using assms(2) ne
    by (simp add: updateAssignees_slot_def findAssignmentsByTaskAndUser_number assms(3)
        rebind_all_char a)
qed

lemma slot_take:
  assumes "i < k" "k \<le> length new_emails"
  shows "updateAssignees_slot e t (take k new_emails) i annotators st w
       = updateAssignees_slot e t new_emails i annotators st w"
proof -
  have a: "take k new_emails ! i = new_emails ! i" using assms by simp
  have b: "(length (take k new_emails) \<noteq> 0) = (length new_emails \<noteq> 0)" using assms by auto
  show ?thesis unfolding updateAssignees_slot_def a b ..
qed

lemma loop_end:
  assumes "length new_emails \<le> i"
  shows "updateAssignees_loop e t new_emails i annotators st w = (Inr (annotators, st), w)"
  using assms by (subst updateAssignees_loop.simps) simp

lemma loop_take:
  assumes "k \<le> length new_emails"
    and "updateAssignees_loop e t (take k new_emails) i annotators st w = (Inr (anns', st'), w')"
    and "i \<le> k"
  shows "updateAssignees_loop e t new_emails i annotators st w
       = updateAssignees_loop e t new_emails k anns' st' w'"
  using assms
proof (induction "k - i" arbitrary: i annotators st w)
  case 0
  then have ik: "i = k" by simp
  have "updateAssignees_loop e t (take k new_emails) k annotators st w = (Inr (annotators, st), w)"
    by (rule loop_end) simp
  with 0(3) ik show ?case by simp
next
  case (Suc n)
  then have ik: "i < k" by simp
  then have il: "i < length new_emails" using Suc.prems(1) by simp
  have tk: "take k new_emails ! i = new_emails ! i" using ik by simp
  have lt: "i < length (take k new_emails)" using ik Suc.prems(1) by simp
  note run = Suc.prems(2)
  show ?case
  proof (cases "length annotators \<le> i")
    case True
    with run lt show ?thesis
      by (subst (asm) updateAssignees_loop.simps) (simp del: length_take)
  next
    case False
    show ?thesis
    proof (cases "Some (new_emails ! i) \<noteq> ar_email (annotators ! i)")
      case True
      obtain r w1 where s: "updateAssignees_slot e t new_emails i annotators st w = (r, w1)"
        by (cases "updateAssignees_slot e t new_emails i annotators st w")
      show ?thesis
      proof (cases r)
        case (Inl err)
        with run lt False True s show ?thesis
          using slot_take [OF ik Suc.prems(1), of e t annotators st w]
          by (subst (asm) updateAssignees_loop.simps) (simp add: tk del: length_take)
      next
        case (Inr p)
        obtain a1 s1 where p: "p = (a1, s1)" by (cases p)
        have run': "updateAssignees_loop e t (take k new_emails) (Suc i) a1 s1 w1 = (Inr (anns', st'), w')"
          using run lt False True s Inr p
          using slot_take [OF ik Suc.prems(1), of e t annotators st w]
          by (subst (asm) updateAssignees_loop.simps) (simp add: tk del: length_take)
        have "updateAssignees_loop e t new_emails (Suc i) a1 s1 w1
            = updateAssignees_loop e t new_emails k anns' st' w'"
          using Suc.hyps(1) [of "Suc i" a1 s1 w1] Suc.hyps(2) Suc.prems(1) run' ik by simp
        then show ?thesis
          using il False True s Inr p
          by (subst updateAssignees_loop.simps) simp
      qed
    next
      case same: False
      have run': "updateAssignees_loop e t (take k new_emails) (Suc i) annotators st w = (Inr (anns', st'), w')"
        using run lt False same
        by (subst (asm) updateAssignees_loop.simps) (simp add: tk del: length_take)
      have "updateAssignees_loop e t new_emails (Suc i) annotators st w
          = updateAssignees_loop e t new_emails k anns' st' w'"
        using Suc.hyps(1) [of "Suc i" annotators st w] Suc.hyps(2) Suc.prems(1) run' ik by simp
      then show ?thesis
        using il False same
        by (subst updateAssignees_loop.simps) simp
    qed
  qed
qed

lemma loop_same:
  assumes "i < length new_emails" "i < length annotators"
    and "Some (new_emails ! i) = ar_email (annotators ! i)"
  shows "updateAssignees_loop e t new_emails i annotators st w
       = updateAssignees_loop e t new_emails (Suc i) annotators st w"
  using assms by (subst updateAssignees_loop.simps) simp

lemma loop_all_same:
  assumes "length new_emails \<le> length annotators"
    and "map Some new_emails = map ar_email (take (length new_emails) annotators)"
  shows "updateAssignees_loop e t new_emails i annotators st w = (Inr (annotators, st), w)"
proof (induction "length new_emails - i" arbitrary: i)
  case 0
  then show ?case by (simp add: loop_end)
next
  case (Suc n)
  then have il: "i < length new_emails" by simp
  then have ia: "i < length annotators" using assms(1) by simp
  have "map Some new_emails ! i = map ar_email (take (length new_emails) annotators) ! i"
    using assms(2) by simp
  then have same: "Some (new_emails ! i) = ar_email (annotators ! i)"
    using il ia by simp
  have "updateAssignees_loop e t new_emails (Suc i) annotators st w = (Inr (annotators, st), w)"
    using Suc.hyps(1) [of "Suc i"] Suc.hyps(2) by simp
  then show ?case using loop_same [OF il ia same] by simp
qed

lemma rebound_bound:
  assumes "a \<in> set (rebound e nu asgs rows)" "as_id a \<in> as_id ` set asgs"
    and "update_accepted e rows nu (as_id a)"
  shows "as_annotator_id a = nu"
  using assms by (auto simp: rebound_def split: if_splits)

text \<open>
  C1 (amended). A slot whose requested email equals its current email is left alone: its
  iteration changes neither the store, the counters nor the annotator list. A slot whose
  requested email is the empty string is processed without any call to the identity or
  mail provider, and every assignment fetched for it whose update the store accepts is
  unbound (\<open>annotator_id\<close> null). When every requested email equals the current one, the
  call changes nothing and returns the message \<open>No changes have been made\<close>.
\<close>

theorem updateAssignees_unchanged_slot:
  fixes e :: env and w :: world and t :: int and new_emails :: "string list"
  defines "anns0 \<equiv> get_all_annotators_from_task (store w) t"
  shows
    "(i < length new_emails \<and> i < length annotators
        \<and> Some (new_emails ! i) = ar_email (annotators ! i)
      \<longrightarrow> updateAssignees_loop e t new_emails i annotators st w
          = updateAssignees_loop e t new_emails (Suc i) annotators st w)
   \<and> (new_emails ! i = [] \<longrightarrow>
        (let fetched = slot_assignments (store w) t (ar_annotator_number (annotators ! i));
             r = updateAssignees_slot e t new_emails i annotators st w
         in (\<exists>st'. fst r = Inr (annotators[i := (annotators ! i)\<lparr>ar_email := Some []\<rparr>], st'))
            \<and> invite_calls (snd r) = invite_calls w
            \<and> metadata_calls (snd r) = metadata_calls w
            \<and> mail_calls (snd r) = mail_calls w
            \<and> users (store (snd r)) = users (store w)
            \<and> assignments (store (snd r)) = rebound e None fetched (assignments (store w))
            \<and> (\<forall>a\<in>set (assignments (store (snd r))).
                  as_id a \<in> as_id ` set fetched
                  \<and> update_accepted e (assignments (store w)) None (as_id a)
                  \<longrightarrow> as_annotator_id a = None)))
   \<and> (length new_emails \<le> length anns0
        \<and> map Some new_emails = map ar_email (take (length new_emails) anns0)
      \<longrightarrow> updateAssignees e w t new_emails
          = (Inr \<lparr>message = ''No changes have been made'', annotators_out = anns0\<rparr>, w))"
proof (intro conjI impI)
  assume "i < length new_emails \<and> i < length annotators
        \<and> Some (new_emails ! i) = ar_email (annotators ! i)"
  then show "updateAssignees_loop e t new_emails i annotators st w
          = updateAssignees_loop e t new_emails (Suc i) annotators st w"
    by (simp add: loop_same)
next
  assume em: "new_emails ! i = []"
  show "let fetched = slot_assignments (store w) t (ar_annotator_number (annotators ! i));
             r = updateAssignees_slot e t new_emails i annotators st w
         in (\<exists>st'. fst r = Inr (annotators[i := (annotators ! i)\<lparr>ar_email := Some []\<rparr>], st'))
            \<and> invite_calls (snd r) = invite_calls w
            \<and> metadata_calls (snd r) = metadata_calls w
            \<and> mail_calls (snd r) = mail_calls w
            \<and> users (store (snd r)) = users (store w)
            \<and> assignments (store (snd r)) = rebound e None fetched (assignments (store w))
            \<and> (\<forall>a\<in>set (assignments (store (snd r))).
                  as_id a \<in> as_id ` set fetched
                  \<and> update_accepted e (assignments (store w)) None (as_id a)
                  \<longrightarrow> as_annotator_id a = None)"
    unfolding Let_def slot_empty_email [OF em]
    by (auto dest: rebound_bound)
next
  assume h: "length new_emails \<le> length anns0
        \<and> map Some new_emails = map ar_email (take (length new_emails) anns0)"
  have g: "getAllAnnotatorsFromTask (store w) t = Inr anns0"
    by (simp add: getAllAnnotatorsFromTask_def select_many_def anns0_def)
  have l: "updateAssignees_loop e t new_emails 0 anns0 \<lparr>success = 0, failed = 0\<rparr> w
      = (Inr (anns0, \<lparr>success = 0, failed = 0\<rparr>), w)"
    by (rule loop_all_same [OF conjunct1 [OF h] conjunct2 [OF h]])
  show "updateAssignees e w t new_emails
          = (Inr \<lparr>message = ''No changes have been made'', annotators_out = anns0\<rparr>, w)"
    by (simp add: updateAssignees_def g l classify_def)
qed

theorem updateAssignees_unchanged_slot_witness:
  "updateAssignees ok_env (world_of team_db) 1 [''a@x.org'', ''b@x.org'']
     = (Inr \<lparr>message = ''No changes have been made'',
             annotators_out = get_all_annotators_from_task team_db 1\<rparr>, world_of team_db)
   \<and> map ar_email (get_all_annotators_from_task team_db 1) = [Some ''a@x.org'', Some ''b@x.org'']"
proof -
  have s: "store (world_of team_db) = team_db" by (simp add: world_of_def)
  have h: "length [''a@x.org'', ''b@x.org''] \<le> length (get_all_annotators_from_task team_db 1)
      \<and> map Some [''a@x.org'', ''b@x.org'']
        = map ar_email (take (length [''a@x.org'', ''b@x.org''])
            (get_all_annotators_from_task team_db 1))"
    by code_simp
  have m: "map ar_email (get_all_annotators_from_task team_db 1) = [Some ''a@x.org'', Some ''b@x.org'']"
    by code_simp
  note t = updateAssignees_unchanged_slot
    [where w = "world_of team_db" and t = 1 and new_emails = "[''a@x.org'', ''b@x.org'']"
       and e = ok_env, unfolded s, THEN conjunct2, THEN conjunct2, THEN mp, OF h]
  show ?thesis using t m by (rule conjI)
qed

theorem updateAssignees_empty_email_counterexample:
  "map as_annotator_id (assignments (store (world_of team_db)))
     = [Some ''u1'', Some ''u1'', Some ''u2'', Some ''u2'']
   \<and> map ar_email (get_all_annotators_from_task team_db 1) = [Some ''a@x.org'', Some ''b@x.org'']
   \<and> fst (updateAssignees ok_env (world_of team_db) 1 ['''', ''b@x.org''])
     = Inr \<lparr>message = ''All the assignments have been reassigned'',
            annotators_out =
              [\<lparr>ar_id = Some ''u1'', ar_email = Some [], ar_role = None, ar_annotator_number = 1\<rparr>,
               \<lparr>ar_id = Some ''u2'', ar_email = Some ''b@x.org'', ar_role = None,
                 ar_annotator_number = 2\<rparr>]\<rparr>
   \<and> map as_annotator_id
       (assignments (store (snd (updateAssignees ok_env (world_of team_db) 1 ['''', ''b@x.org'']))))
     = [None, None, Some ''u2'', Some ''u2'']"
  by code_simp

lemma getAllAnnotatorsFromTask_rows:
  "getAllAnnotatorsFromTask d t = Inr (get_all_annotators_from_task d t)"
  by (simp add: getAllAnnotatorsFromTask_def select_many_def)

lemma run_result:
  "\<not> isl (fst r) \<Longrightarrow> r = (Inr (fst (projr (fst r)), snd (projr (fst r))), snd r)"
  by (cases r; cases "fst r") auto

lemma loop_take_fail:
  assumes "k \<le> length new_emails"
    and "updateAssignees_loop e t (take k new_emails) i annotators st w = (Inl err, w')"
    and "i \<le> k"
  shows "updateAssignees_loop e t new_emails i annotators st w = (Inl err, w')"
  using assms
proof (induction "k - i" arbitrary: i annotators st w)
  case 0
  then have ik: "i = k" by simp
  have "updateAssignees_loop e t (take k new_emails) k annotators st w = (Inr (annotators, st), w)"
    by (rule loop_end) simp
  with 0(3) ik show ?case by simp
next
  case (Suc n)
  then have ik: "i < k" by simp
  then have il: "i < length new_emails" using Suc.prems(1) by simp
  have tk: "take k new_emails ! i = new_emails ! i" using ik by simp
  have lt: "i < length (take k new_emails)" using ik Suc.prems(1) by simp
  note run = Suc.prems(2)
  show ?case
  proof (cases "length annotators \<le> i")
    case True
    then have "updateAssignees_loop e t (take k new_emails) i annotators st w
        = (Inl (TypeError ''Cannot read properties of undefined''), w)"
      using lt by (subst updateAssignees_loop.simps) (simp del: length_take)
    moreover have "updateAssignees_loop e t new_emails i annotators st w
        = (Inl (TypeError ''Cannot read properties of undefined''), w)"
      using True il by (subst updateAssignees_loop.simps) simp
    ultimately show ?thesis using run by simp
  next
    case False
    show ?thesis
    proof (cases "Some (new_emails ! i) \<noteq> ar_email (annotators ! i)")
      case True
      obtain r w1 where s: "updateAssignees_slot e t new_emails i annotators st w = (r, w1)"
        by (cases "updateAssignees_slot e t new_emails i annotators st w")
      show ?thesis
      proof (cases r)
        case (Inl err1)
        have "updateAssignees_loop e t (take k new_emails) i annotators st w = (Inl err1, w1)"
          using lt False True s Inl
          using slot_take [OF ik Suc.prems(1), of e t annotators st w]
          by (subst updateAssignees_loop.simps) (simp add: tk del: length_take)
        moreover have "updateAssignees_loop e t new_emails i annotators st w = (Inl err1, w1)"
          using il False True s Inl by (subst updateAssignees_loop.simps) simp
        ultimately show ?thesis using run by simp
      next
        case (Inr p)
        obtain a1 s1 where p: "p = (a1, s1)" by (cases p)
        have run': "updateAssignees_loop e t (take k new_emails) (Suc i) a1 s1 w1 = (Inl err, w')"
          using run lt False True s Inr p
          using slot_take [OF ik Suc.prems(1), of e t annotators st w]
          by (subst (asm) updateAssignees_loop.simps) (simp add: tk del: length_take)
        have "updateAssignees_loop e t new_emails (Suc i) a1 s1 w1 = (Inl err, w')"
          using Suc.hyps(1) [of "Suc i" a1 s1 w1] Suc.hyps(2) Suc.prems(1) run' ik by simp
        then show ?thesis
          using il False True s Inr p
          by (subst updateAssignees_loop.simps) simp
      qed
    next
      case same: False
      have run': "updateAssignees_loop e t (take k new_emails) (Suc i) annotators st w = (Inl err, w')"
        using run lt False same
        by (subst (asm) updateAssignees_loop.simps) (simp add: tk del: length_take)
      have "updateAssignees_loop e t new_emails (Suc i) annotators st w = (Inl err, w')"
        using Suc.hyps(1) [of "Suc i" annotators st w] Suc.hyps(2) Suc.prems(1) run' ik by simp
      then show ?thesis
        using il False same
        by (subst updateAssignees_loop.simps) simp
    qed
  qed
qed

lemma state_before_0:
  "state_before e t new_emails w0 0
     = (Inr (get_all_annotators_from_task (store w0) t, \<lparr>success = 0, failed = 0\<rparr>), w0)"
  unfolding state_before_def by (rule loop_end) simp

lemma state_before_all:
  "state_before e t new_emails w0 (length new_emails)
     = updateAssignees_loop e t new_emails 0 (get_all_annotators_from_task (store w0) t)
         \<lparr>success = 0, failed = 0\<rparr> w0"
  by (simp add: state_before_def)

lemma state_before_Suc_fail:
  assumes "k < length new_emails" and "state_before e t new_emails w0 k = (Inl err, w)"
  shows "state_before e t new_emails w0 (Suc k) = (Inl err, w)"
proof -
  let ?es = "take (Suc k) new_emails"
  have tk: "take k ?es = take k new_emails" by (simp add: min_absorb1)
  have le: "k \<le> length ?es" using assms(1) by simp
  show ?thesis
    unfolding state_before_def
    by (rule loop_take_fail [OF le _ le0]) (use assms(2) in \<open>simp add: state_before_def tk\<close>)
qed

lemma state_before_Suc_step:
  assumes "k < length new_emails"
    and "state_before e t new_emails w0 k = (Inr (annotators, st), w)"
  shows "state_before e t new_emails w0 (Suc k) =
     (if length annotators \<le> k then
        (Inl (TypeError ''Cannot read properties of undefined''), w)
      else if Some (new_emails ! k) \<noteq> ar_email (annotators ! k) then
        (case updateAssignees_slot e t new_emails k annotators st w of
           (Inl err, w') \<Rightarrow> (Inl err, w')
         | (Inr (annotators', st'), w') \<Rightarrow> (Inr (annotators', st'), w'))
      else (Inr (annotators, st), w))"
proof -
  let ?es = "take (Suc k) new_emails"
  have tk: "take k ?es = take k new_emails" by (simp add: min_absorb1)
  have le: "k \<le> length ?es" using assms(1) by simp
  have len: "length ?es = Suc k" using assms(1) by simp
  have nth: "?es ! k = new_emails ! k" by simp
  have sl: "updateAssignees_slot e t ?es k annotators st w
      = updateAssignees_slot e t new_emails k annotators st w"
    by (rule slot_take) (use assms(1) in auto)
  have pre: "updateAssignees_loop e t (take k ?es) 0
      (get_all_annotators_from_task (store w0) t) \<lparr>success = 0, failed = 0\<rparr> w0
      = (Inr (annotators, st), w)"
    using assms(2) by (simp add: state_before_def tk)
  have "state_before e t new_emails w0 (Suc k) = updateAssignees_loop e t ?es k annotators st w"
    unfolding state_before_def by (rule loop_take [OF le pre le0])
  also have "\<dots> =
     (if length annotators \<le> k then
        (Inl (TypeError ''Cannot read properties of undefined''), w)
      else if Some (new_emails ! k) \<noteq> ar_email (annotators ! k) then
        (case updateAssignees_slot e t new_emails k annotators st w of
           (Inl err, w') \<Rightarrow> (Inl err, w')
         | (Inr (annotators', st'), w') \<Rightarrow> (Inr (annotators', st'), w'))
      else (Inr (annotators, st), w))"
  proof -
    have e1: "updateAssignees_loop e t ?es (Suc k) a s v = (Inr (a, s), v)" for a s v
      by (rule loop_end) (simp add: len)
    show ?thesis
      by (subst updateAssignees_loop.simps)
        (auto simp add: len e1 sl nth split: prod.splits sum.splits simp del: length_take)
  qed
  finally show ?thesis .
qed

lemma slot_counts:
  assumes "i < length new_emails"
    and "updateAssignees_slot e t new_emails i annotators st w = (Inr (annotators', st'), w')"
  defines "fetched \<equiv> slot_assignments (store w) t (ar_annotator_number (annotators ! i))"
  defines "new_user \<equiv> slot_new_user e t (new_emails ! i) w"
  shows "success st' = success st
           + length (filter (\<lambda>a. update_accepted e (assignments (store w)) new_user (as_id a)) fetched)
       \<and> failed st' = failed st
           + length (filter (\<lambda>a. \<not> update_accepted e (assignments (store w)) new_user (as_id a)) fetched)
       \<and> assignments (store w') = rebound e new_user fetched (assignments (store w))
       \<and> slot_resolves e t (new_emails ! i) w"
proof (cases "new_emails ! i = []")
  case True
  have nu: "new_user = None" by (simp add: new_user_def slot_new_user_def True)
  from assms(2) show ?thesis
    unfolding slot_empty_email [OF True] nu fetched_def
    by (auto simp: rebind_all_char slot_resolves_def True)
next
  case False
  obtain r w1 where a: "assignUserToTask e w (new_emails ! i) t = (r, w1)"
    by (cases "assignUserToTask e w (new_emails ! i) t")
  show ?thesis
  proof (cases r)
    case (Inl err)
    with slot_resolution_fails [OF assms(1) False, of e w t err w1 annotators st] a assms(2)
    show ?thesis by simp
  next
    case (Inr user_id)
    have nu: "new_user = Some user_id"
      by (simp add: new_user_def slot_new_user_def False a Inr)
    have fr: "assignments (store w1) = assignments (store w)"
      using assignUserToTask_frame [OF a] by simp
    have rs: "slot_resolves e t (new_emails ! i) w"
      by (simp add: slot_resolves_def False a Inr)
    from assms(2) show ?thesis
      unfolding slot_resolution_ok [OF assms(1) False a [unfolded Inr]] nu fetched_def
      by (auto simp: rebind_all_char fr rs)
  qed
qed

lemma counters_tally:
  assumes "k \<le> length new_emails"
    and "state_before e t new_emails w0 k = (Inr (annotators, st), w)"
  shows "success st = sum_list (map (\<lambda>i. fst (slot_tally e t new_emails w0 i)) [0..<k])
       \<and> failed st = sum_list (map (\<lambda>i. snd (slot_tally e t new_emails w0 i)) [0..<k])"
  using assms
proof (induction k arbitrary: annotators st w)
  case 0
  then show ?case by (auto simp add: state_before_0)
next
  case (Suc k)
  then have kl: "k < length new_emails" by simp
  obtain r v where b: "state_before e t new_emails w0 k = (r, v)"
    by (cases "state_before e t new_emails w0 k")
  show ?case
  proof (cases r)
    case (Inl err)
    with state_before_Suc_fail [OF kl] b Suc.prems(2) show ?thesis by simp
  next
    case (Inr p)
    obtain a s where p: "p = (a, s)" by (cases p)
    have bk: "state_before e t new_emails w0 k = (Inr (a, s), v)" using b Inr p by simp
    have ih: "success s = sum_list (map (\<lambda>i. fst (slot_tally e t new_emails w0 i)) [0..<k])
       \<and> failed s = sum_list (map (\<lambda>i. snd (slot_tally e t new_emails w0 i)) [0..<k])"
      by (rule Suc.IH [OF _ bk]) (use kl in simp)
    note step = state_before_Suc_step [OF kl bk]
    show ?thesis
    proof (cases "length a \<le> k")
      case True
      with step Suc.prems(2) show ?thesis by simp
    next
      case False
      show ?thesis
      proof (cases "Some (new_emails ! k) \<noteq> ar_email (a ! k)")
        case True
        have sl: "updateAssignees_slot e t new_emails k a s v = (Inr (annotators, st), w)"
          using step Suc.prems(2) False True by (auto split: prod.splits sum.splits)
        note sc = slot_counts [OF kl sl]
        have rs: "slot_resolves e t (new_emails ! k) v" using sc by simp
        have tally: "slot_tally e t new_emails w0 k =
            (length (filter (\<lambda>x. update_accepted e (assignments (store v))
                (slot_new_user e t (new_emails ! k) v) (as_id x))
                (slot_assignments (store v) t (ar_annotator_number (a ! k)))),
             length (filter (\<lambda>x. \<not> update_accepted e (assignments (store v))
                (slot_new_user e t (new_emails ! k) v) (as_id x))
                (slot_assignments (store v) t (ar_annotator_number (a ! k)))))"
          using True False rs by (simp add: slot_tally_def bk Let_def)
        from sc ih show ?thesis by (simp add: tally)
      next
        case same: False
        have "st = s" using step Suc.prems(2) False same by simp
        moreover have "slot_tally e t new_emails w0 k = (0, 0)"
          using same by (simp add: slot_tally_def bk)
        ultimately show ?thesis using ih by simp
      qed
    qed
  qed
qed

lemma slot_fails_frame:
  assumes "i < length new_emails"
    and "updateAssignees_slot e t new_emails i annotators st w = (Inl err, w')"
  shows "assignments (store w') = assignments (store w)"
proof (cases "new_emails ! i = []")
  case True
  from assms(2) show ?thesis unfolding slot_empty_email [OF True] by simp
next
  case False
  obtain r w1 where a: "assignUserToTask e w (new_emails ! i) t = (r, w1)"
    by (cases "assignUserToTask e w (new_emails ! i) t")
  show ?thesis
  proof (cases r)
    case (Inl err1)
    have "updateAssignees_slot e t new_emails i annotators st w = (Inl err1, w1)"
      by (rule slot_resolution_fails [OF assms(1) False a [unfolded Inl]])
    with assms(2) have "w' = w1" by simp
    with assignUserToTask_frame [OF a] show ?thesis by simp
  next
    case (Inr user_id)
    from assms(2) show ?thesis
      unfolding slot_resolution_ok [OF assms(1) False a [unfolded Inr]] by simp
  qed
qed

lemma state_before_fail_run:
  assumes "k \<le> length new_emails" and "state_before e t new_emails w0 k = (Inl err, w')"
  shows "updateAssignees_loop e t new_emails 0 (get_all_annotators_from_task (store w0) t)
           \<lparr>success = 0, failed = 0\<rparr> w0 = (Inl err, w')"
  by (rule loop_take_fail [OF assms(1) assms(2) [unfolded state_before_def] le0])

text \<open>
  C4 (amended). A run of \<open>updateAssignees\<close> whose loop is left by a throw ends with that
  error, whatever updates have succeeded. When the loop has run to its end, its two
  counters are the numbers of accepted and of refused per-assignment updates, summed over
  all the slots, and the outcome is one of four: successes and no failure give the
  message \<open>All the assignments have been reassigned\<close>; no update at all gives \<open>No changes
  have been made\<close>; successes and failures together give a server error; failures alone
  give a server error. In all four the returned world is the one the loop left, and each
  processed slot has written its accepted updates to the table, so they stay committed.
  A slot that throws changes no assignment, and its error is the result of the call: the
  updates of the slots before it stay committed as well.
\<close>

theorem updateAssignees_classification:
  fixes e :: env and w :: world and t :: int and new_emails :: "string list"
  defines "run \<equiv> updateAssignees_loop e t new_emails 0
      (get_all_annotators_from_task (store w) t) \<lparr>success = 0, failed = 0\<rparr> w"
  shows "(\<forall>err w'. run = (Inl err, w') \<longrightarrow> updateAssignees e w t new_emails = (Inl err, w'))
       \<and> (\<forall>anns' st w'. run = (Inr (anns', st), w') \<longrightarrow>
            success st = sum_list (map (\<lambda>i. fst (slot_tally e t new_emails w i))
                           [0..<length new_emails])
          \<and> failed st = sum_list (map (\<lambda>i. snd (slot_tally e t new_emails w i))
                           [0..<length new_emails])
          \<and> (success st \<noteq> 0 \<and> failed st = 0 \<longrightarrow>
                updateAssignees e w t new_emails
                  = (Inr \<lparr>message = ''All the assignments have been reassigned'',
                          annotators_out = anns'\<rparr>, w'))
          \<and> (success st = 0 \<and> failed st = 0 \<longrightarrow>
                updateAssignees e w t new_emails
                  = (Inr \<lparr>message = ''No changes have been made'', annotators_out = anns'\<rparr>, w'))
          \<and> (success st \<noteq> 0 \<and> failed st \<noteq> 0 \<longrightarrow>
                updateAssignees e w t new_emails
                  = (Inl (TRPCError INTERNAL_SERVER_ERROR ''Some assignment updates failed''), w'))
          \<and> (success st = 0 \<and> failed st \<noteq> 0 \<longrightarrow>
                updateAssignees e w t new_emails
                  = (Inl (TRPCError INTERNAL_SERVER_ERROR ''All assignment updates failed''), w')))
       \<and> (\<forall>i annotators st w1 anns' st' w'.
            i < length new_emails
            \<and> state_before e t new_emails w i = (Inr (annotators, st), w1)
            \<and> state_before e t new_emails w (Suc i) = (Inr (anns', st'), w') \<longrightarrow>
            assignments (store w')
              = (if Some (new_emails ! i) = ar_email (annotators ! i) then assignments (store w1)
                 else rebound e (slot_new_user e t (new_emails ! i) w1)
                        (slot_assignments (store w1) t (ar_annotator_number (annotators ! i)))
                        (assignments (store w1))))
       \<and> (\<forall>i annotators st w1 err w'.
            i < length new_emails
            \<and> state_before e t new_emails w i = (Inr (annotators, st), w1)
            \<and> state_before e t new_emails w (Suc i) = (Inl err, w') \<longrightarrow>
            assignments (store w') = assignments (store w1)
            \<and> updateAssignees e w t new_emails = (Inl err, w'))"
proof (intro conjI allI impI)
  fix err w'
  assume "run = (Inl err, w')"
  then show "updateAssignees e w t new_emails = (Inl err, w')"
    by (simp add: updateAssignees_def getAllAnnotatorsFromTask_rows run_def)
next
  fix anns' st w'
  assume r: "run = (Inr (anns', st), w')"
  have u: "updateAssignees e w t new_emails = (classify st anns', w')"
    using r by (simp add: updateAssignees_def getAllAnnotatorsFromTask_rows run_def)
  have sb: "state_before e t new_emails w (length new_emails) = (Inr (anns', st), w')"
    using r by (simp add: state_before_all run_def)
  note c = counters_tally [OF le_refl sb]
  show "success st = sum_list (map (\<lambda>i. fst (slot_tally e t new_emails w i))
                           [0..<length new_emails])"
    using c by simp
  show "failed st = sum_list (map (\<lambda>i. snd (slot_tally e t new_emails w i))
                           [0..<length new_emails])"
    using c by simp
  {
    assume "success st \<noteq> 0 \<and> failed st = 0"
    then show "updateAssignees e w t new_emails
                  = (Inr \<lparr>message = ''All the assignments have been reassigned'',
                          annotators_out = anns'\<rparr>, w')"
      unfolding u by (simp add: classify_def)
  }
  {
    assume "success st = 0 \<and> failed st = 0"
    then show "updateAssignees e w t new_emails
                  = (Inr \<lparr>message = ''No changes have been made'', annotators_out = anns'\<rparr>, w')"
      unfolding u by (simp add: classify_def)
  }
  {
    assume "success st \<noteq> 0 \<and> failed st \<noteq> 0"
    then show "updateAssignees e w t new_emails
                  = (Inl (TRPCError INTERNAL_SERVER_ERROR ''Some assignment updates failed''), w')"
      unfolding u by (simp add: classify_def)
  }
  {
    assume "success st = 0 \<and> failed st \<noteq> 0"
    then show "updateAssignees e w t new_emails
                  = (Inl (TRPCError INTERNAL_SERVER_ERROR ''All assignment updates failed''), w')"
      unfolding u by (simp add: classify_def)
  }
next
  fix i annotators st w1 anns' st' w'
  assume h: "i < length new_emails
            \<and> state_before e t new_emails w i = (Inr (annotators, st), w1)
            \<and> state_before e t new_emails w (Suc i) = (Inr (anns', st'), w')"
  then have il: "i < length new_emails"
    and b: "state_before e t new_emails w i = (Inr (annotators, st), w1)"
    and a: "state_before e t new_emails w (Suc i) = (Inr (anns', st'), w')"
    by simp_all
  note step = state_before_Suc_step [OF il b]
  show "assignments (store w')
              = (if Some (new_emails ! i) = ar_email (annotators ! i) then assignments (store w1)
                 else rebound e (slot_new_user e t (new_emails ! i) w1)
                        (slot_assignments (store w1) t (ar_annotator_number (annotators ! i)))
                        (assignments (store w1)))"
  proof (cases "length annotators \<le> i")
    case True
    with step a show ?thesis by simp
  next
    case False
    show ?thesis
    proof (cases "Some (new_emails ! i) \<noteq> ar_email (annotators ! i)")
      case True
      have sl: "updateAssignees_slot e t new_emails i annotators st w1 = (Inr (anns', st'), w')"
        using step a False True by (auto split: prod.splits sum.splits)
      from slot_counts [OF il sl] True show ?thesis by simp
    next
      case same: False
      have "w' = w1" using step a False same by simp
      with same show ?thesis by simp
    qed
  qed
next
  fix i annotators st w1 err w'
  assume h: "i < length new_emails
            \<and> state_before e t new_emails w i = (Inr (annotators, st), w1)
            \<and> state_before e t new_emails w (Suc i) = (Inl err, w')"
  then have il: "i < length new_emails"
    and b: "state_before e t new_emails w i = (Inr (annotators, st), w1)"
    and a: "state_before e t new_emails w (Suc i) = (Inl err, w')"
    by simp_all
  note step = state_before_Suc_step [OF il b]
  show "assignments (store w') = assignments (store w1)"
  proof (cases "length annotators \<le> i")
    case True
    with step a show ?thesis by simp
  next
    case False
    show ?thesis
    proof (cases "Some (new_emails ! i) \<noteq> ar_email (annotators ! i)")
      case True
      have sl: "updateAssignees_slot e t new_emails i annotators st w1 = (Inl err, w')"
        using step a False True by (auto split: prod.splits sum.splits)
      from slot_fails_frame [OF il sl] show ?thesis .
    next
      case same: False
      with step a False show ?thesis by simp
    qed
  qed
  have "Suc i \<le> length new_emails" using il by simp
  from state_before_fail_run [OF this a]
  show "updateAssignees e w t new_emails = (Inl err, w')"
    by (simp add: updateAssignees_def getAllAnnotatorsFromTask_rows)
qed

theorem updateAssignees_classification_witness:
  "sum_list (map (\<lambda>i. fst (slot_tally strict_env 1 [''c@x.org'', ''b@x.org''] (world_of team_db) i))
       [0..<length [''c@x.org'', ''b@x.org'']]) = 1
   \<and> sum_list (map (\<lambda>i. snd (slot_tally strict_env 1 [''c@x.org'', ''b@x.org''] (world_of team_db) i))
       [0..<length [''c@x.org'', ''b@x.org'']]) = 1
   \<and> fst (updateAssignees strict_env (world_of team_db) 1 [''c@x.org'', ''b@x.org''])
     = Inl (TRPCError INTERNAL_SERVER_ERROR ''Some assignment updates failed'')
   \<and> map as_annotator_id (assignments (store
        (snd (updateAssignees strict_env (world_of team_db) 1 [''c@x.org'', ''b@x.org'']))))
     = [Some ''u3'', Some ''u1'', Some ''u2'', Some ''u2'']
   \<and> map as_annotator_id (assignments (store
        (snd (state_before strict_env 1 [''c@x.org'', ''b@x.org''] (world_of team_db) (Suc 0)))))
     = [Some ''u3'', Some ''u1'', Some ''u2'', Some ''u2'']
   \<and> fst (updateAssignees closed_env (world_of team_db) 1 [''c@x.org'', ''z@x.org''])
     = Inl (TRPCError INTERNAL_SERVER_ERROR ''Error inviting: invitations are closed'')
   \<and> assignments (store
        (snd (updateAssignees closed_env (world_of team_db) 1 [''c@x.org'', ''z@x.org''])))
     = assignments (store
        (snd (state_before closed_env 1 [''c@x.org'', ''z@x.org''] (world_of team_db) (Suc 0))))"
proof -
  let ?es = "[''c@x.org'', ''b@x.org'']"
  let ?L = "updateAssignees_loop strict_env 1 ?es 0
      (get_all_annotators_from_task (store (world_of team_db)) 1)
      \<lparr>success = 0, failed = 0\<rparr> (world_of team_db)"
  let ?B0 = "state_before strict_env 1 ?es (world_of team_db) 0"
  let ?B1 = "state_before strict_env 1 ?es (world_of team_db) (Suc 0)"
  let ?F = "updateAssignees_loop closed_env 1 [''c@x.org'', ''z@x.org''] 0
      (get_all_annotators_from_task (store (world_of team_db)) 1)
      \<lparr>success = 0, failed = 0\<rparr> (world_of team_db)"
  have i: "\<not> isl (fst ?L)" by code_simp
  have s1: "success (snd (projr (fst ?L))) = 1" by code_simp
  have f1: "failed (snd (projr (fst ?L))) = 1" by code_simp
  have c: "success (snd (projr (fst ?L))) \<noteq> 0 \<and> failed (snd (projr (fst ?L))) \<noteq> 0"
    using s1 f1 by simp
  have p: "map as_annotator_id (assignments (store (snd ?L)))
      = [Some ''u3'', Some ''u1'', Some ''u2'', Some ''u2'']"
    by code_simp
  note all = updateAssignees_classification [where e = strict_env and w = "world_of team_db"
      and t = 1 and new_emails = ?es]
  note run = all [THEN conjunct2, THEN conjunct1, THEN spec, THEN spec, THEN spec, THEN mp,
      OF run_result [OF i]]
  have a: "sum_list (map (\<lambda>i. fst (slot_tally strict_env 1 ?es (world_of team_db) i))
       [0..<length ?es]) = 1"
    using run [THEN conjunct1] s1 by simp
  have b: "sum_list (map (\<lambda>i. snd (slot_tally strict_env 1 ?es (world_of team_db) i))
       [0..<length ?es]) = 1"
    using run [THEN conjunct2, THEN conjunct1] f1 by simp
  note t = run [THEN conjunct2, THEN conjunct2, THEN conjunct2, THEN conjunct2,
      THEN conjunct1, THEN mp, OF c]
  have i0: "\<not> isl (fst ?B0)" by code_simp
  have i1: "\<not> isl (fst ?B1)" by code_simp
  have l: "0 < length ?es" by simp
  note slot = all [THEN conjunct2, THEN conjunct2, THEN conjunct1, THEN spec, THEN spec,
      THEN spec, THEN spec,
      THEN spec, THEN spec, THEN spec, THEN mp,
      OF conjI [OF l conjI [OF run_result [OF i0] run_result [OF i1]]]]
  have r: "map as_annotator_id
      (if Some (?es ! 0) = ar_email (fst (projr (fst ?B0)) ! 0)
       then assignments (store (snd ?B0))
       else rebound strict_env (slot_new_user strict_env 1 (?es ! 0) (snd ?B0))
              (slot_assignments (store (snd ?B0)) 1
                 (ar_annotator_number (fst (projr (fst ?B0)) ! 0)))
              (assignments (store (snd ?B0))))
      = [Some ''u3'', Some ''u1'', Some ''u2'', Some ''u2'']"
    by code_simp
  have d: "map as_annotator_id (assignments (store (snd ?B1)))
     = [Some ''u3'', Some ''u1'', Some ''u2'', Some ''u2'']"
    unfolding slot by (rule r)
  have j: "isl (fst ?F)" by code_simp
  have k: "projl (fst ?F)
      = TRPCError INTERNAL_SERVER_ERROR ''Error inviting: invitations are closed''"
    by code_simp
  have fl: "?F = (Inl (projl (fst ?F)), snd ?F)"
    using j by (cases ?F) (auto simp: isl_def)
  note thrown = updateAssignees_classification [where e = closed_env
      and w = "world_of team_db" and t = 1 and new_emails = "[''c@x.org'', ''z@x.org'']",
      THEN conjunct1, THEN spec, THEN spec, THEN mp, OF fl]
  let ?C1 = "state_before closed_env 1 [''c@x.org'', ''z@x.org''] (world_of team_db) (Suc 0)"
  let ?C2 = "state_before closed_env 1 [''c@x.org'', ''z@x.org''] (world_of team_db)
      (Suc (Suc 0))"
  have c1: "\<not> isl (fst ?C1)" by code_simp
  have c2: "isl (fst ?C2)" by code_simp
  have c2l: "?C2 = (Inl (projl (fst ?C2)), snd ?C2)"
    using c2 by (cases ?C2) (auto simp: isl_def)
  have l2: "Suc 0 < length [''c@x.org'', ''z@x.org'']" by simp
  note stop = updateAssignees_classification [where e = closed_env
      and w = "world_of team_db" and t = 1 and new_emails = "[''c@x.org'', ''z@x.org'']",
      THEN conjunct2, THEN conjunct2, THEN conjunct2, THEN spec, THEN spec, THEN spec,
      THEN spec, THEN spec, THEN spec, THEN mp,
      OF conjI [OF l2 conjI [OF run_result [OF c1] c2l]]]
  have q: "assignments (store
        (snd (updateAssignees closed_env (world_of team_db) 1 [''c@x.org'', ''z@x.org''])))
     = assignments (store (snd ?C1))"
    unfolding stop [THEN conjunct2] snd_conv using stop [THEN conjunct1] .
  have r1: "fst (updateAssignees closed_env (world_of team_db) 1 [''c@x.org'', ''z@x.org''])
     = Inl (TRPCError INTERNAL_SERVER_ERROR ''Error inviting: invitations are closed'')"
    unfolding thrown using k by simp
  have r2: "fst (updateAssignees strict_env (world_of team_db) 1 ?es)
     = Inl (TRPCError INTERNAL_SERVER_ERROR ''Some assignment updates failed'')"
    unfolding t by simp
  have r3: "map as_annotator_id (assignments (store
        (snd (updateAssignees strict_env (world_of team_db) 1 ?es))))
     = [Some ''u3'', Some ''u1'', Some ''u2'', Some ''u2'']"
    unfolding t using p by simp
  from a b r2 r3 d r1 q show ?thesis by (intro conjI)
qed

text \<open>
  The claim as stated, for every run, does not hold. With invitations closed, the request
  \<open>[c@x.org, z@x.org]\<close> re-binds both assignments of slot 1 (two updates attempted, both
  accepted, none refused), then the resolution of \<open>z@x.org\<close> for slot 2 throws: no update
  is attempted there. Every attempted update has succeeded, and the call does not return
  \<open>All the assignments have been reassigned\<close> but the invitation error; the two updates
  of slot 1 stay committed.
\<close>

theorem updateAssignees_classification_counterexample:
  "map (slot_tally closed_env 1 [''c@x.org'', ''z@x.org''] (world_of team_db)) [0, 1]
     = [(2, 0), (0, 0)]
   \<and> fst (updateAssignees closed_env (world_of team_db) 1 [''c@x.org'', ''z@x.org''])
     = Inl (TRPCError INTERNAL_SERVER_ERROR ''Error inviting: invitations are closed'')
   \<and> map as_annotator_id (assignments (store
        (snd (updateAssignees closed_env (world_of team_db) 1 [''c@x.org'', ''z@x.org'']))))
     = [Some ''u3'', Some ''u3'', Some ''u2'', Some ''u2'']"
  by code_simp

text \<open>
  C6 (amended). Let the slots before \<open>i\<close> have been processed, leaving the counters
  \<open>st\<close> and the world \<open>w\<close>, and let slot \<open>i\<close> ask for a non-empty email that differs
  from the current one. If the resolution of the email throws, the whole call ends with
  that error at once: no assignment of the slot is touched, no failure is counted, no
  later slot is processed, and what the earlier slots wrote (the table of \<open>w\<close>) stays.
  If it returns, it returns a non-empty user identifier, and only then are the slot's
  assignments re-bound: the accepted ones among the fetched rows are bound to that user.
\<close>

theorem updateAssignees_resolution:
  assumes "updateAssignees_loop e t (take i new_emails) 0
             (get_all_annotators_from_task (store w0) t) \<lparr>success = 0, failed = 0\<rparr> w0
           = (Inr (annotators, st), w)"
    and "i < length new_emails" and "i < length annotators"
    and "Some (new_emails ! i) \<noteq> ar_email (annotators ! i)" and "new_emails ! i \<noteq> []"
  shows "(\<forall>err w1. assignUserToTask e w (new_emails ! i) t = (Inl err, w1) \<longrightarrow>
            updateAssignees e w0 t new_emails = (Inl err, w1)
            \<and> assignments (store w1) = assignments (store w))
       \<and> (\<forall>user_id w1. assignUserToTask e w (new_emails ! i) t = (Inr user_id, w1) \<longrightarrow>
            user_id \<noteq> []
            \<and> (let fetched = slot_assignments (store w) t (ar_annotator_number (annotators ! i));
                    r = updateAssignees_slot e t new_emails i annotators st w
                in (\<exists>st'. fst r = Inr (annotators
                        [i := (annotators ! i)\<lparr>ar_email := Some (new_emails ! i)\<rparr>], st'))
                   \<and> assignments (store (snd r))
                       = rebound e (Some user_id) fetched (assignments (store w))))"
proof (intro conjI allI impI)
  fix err w1
  assume f: "assignUserToTask e w (new_emails ! i) t = (Inl err, w1)"
  have s: "updateAssignees_slot e t new_emails i annotators st w = (Inl err, w1)"
    by (rule slot_resolution_fails [OF assms(2) assms(5) f])
  have "updateAssignees_loop e t new_emails 0 (get_all_annotators_from_task (store w0) t)
          \<lparr>success = 0, failed = 0\<rparr> w0
      = updateAssignees_loop e t new_emails i annotators st w"
    using loop_take [OF _ assms(1)] assms(2) by simp
  also have "\<dots> = (Inl err, w1)"
    using assms(2,3,4) s by (subst updateAssignees_loop.simps) simp
  finally show "updateAssignees e w0 t new_emails = (Inl err, w1)"
    by (simp add: updateAssignees_def getAllAnnotatorsFromTask_rows)
  show "assignments (store w1) = assignments (store w)"
    using assignUserToTask_frame [OF f] by simp
next
  fix user_id w1
  assume r: "assignUserToTask e w (new_emails ! i) t = (Inr user_id, w1)"
  show "user_id \<noteq> []" by (rule assignUserToTask_concrete [OF r])
  show "let fetched = slot_assignments (store w) t (ar_annotator_number (annotators ! i));
            r = updateAssignees_slot e t new_emails i annotators st w
        in (\<exists>st'. fst r = Inr (annotators
                [i := (annotators ! i)\<lparr>ar_email := Some (new_emails ! i)\<rparr>], st'))
           \<and> assignments (store (snd r))
               = rebound e (Some user_id) fetched (assignments (store w))"
    unfolding Let_def slot_resolution_ok [OF assms(2) assms(5) r] by simp
qed

theorem updateAssignees_resolution_witness:
  "fst (updateAssignees closed_env (world_of team_db) 1 [''c@x.org'', ''z@x.org''])
     = Inl (TRPCError INTERNAL_SERVER_ERROR ''Error inviting: invitations are closed'')
   \<and> map as_annotator_id (assignments (store
        (snd (updateAssignees closed_env (world_of team_db) 1 [''c@x.org'', ''z@x.org'']))))
     = [Some ''u3'', Some ''u3'', Some ''u2'', Some ''u2'']"
proof -
  let ?L = "updateAssignees_loop closed_env 1 (take 1 [''c@x.org'', ''z@x.org'']) 0
      (get_all_annotators_from_task (store (world_of team_db)) 1)
      \<lparr>success = 0, failed = 0\<rparr> (world_of team_db)"
  let ?w1 = "(snd ?L)\<lparr>invite_calls := invite_calls (snd ?L) @ [(''z@x.org'', 1)]\<rparr>"
  have i: "\<not> isl (fst ?L)" by code_simp
  have h2: "(1::nat) < length [''c@x.org'', ''z@x.org'']" by simp
  have h3: "1 < length (fst (projr (fst ?L)))" by code_simp
  have h4: "Some ([''c@x.org'', ''z@x.org''] ! 1) \<noteq> ar_email (fst (projr (fst ?L)) ! 1)"
    by code_simp
  have h5: "[''c@x.org'', ''z@x.org''] ! 1 \<noteq> []" by simp
  have f: "assignUserToTask closed_env (snd ?L) ([''c@x.org'', ''z@x.org''] ! 1) 1
      = (Inl (TRPCError INTERNAL_SERVER_ERROR ''Error inviting: invitations are closed''), ?w1)"
    by code_simp
  have p: "map as_annotator_id (assignments (store (snd ?L)))
      = [Some ''u3'', Some ''u3'', Some ''u2'', Some ''u2'']"
    by code_simp
  note t = updateAssignees_resolution [OF run_result [OF i] h2 h3 h4 h5, THEN conjunct1,
      THEN spec, THEN spec, THEN mp, OF f]
  show ?thesis using t p by simp
qed

theorem updateAssignees_resolution_counterexample:
  "fst (updateAssignees closed_env (world_of team_db) 1 [''z@x.org'', ''c@x.org''])
     = Inl (TRPCError INTERNAL_SERVER_ERROR ''Error inviting: invitations are closed'')
   \<and> map ar_email (get_all_annotators_from_task team_db 1) = [Some ''a@x.org'', Some ''b@x.org'']
   \<and> fst (assignUserToTask closed_env (world_of team_db) ''c@x.org'' 1) = Inr ''u3''
   \<and> map as_annotator_id (assignments (store
        (snd (updateAssignees closed_env (world_of team_db) 1 [''z@x.org'', ''c@x.org'']))))
     = [Some ''u1'', Some ''u1'', Some ''u2'', Some ''u2'']
   \<and> metadata_calls (snd (updateAssignees closed_env (world_of team_db) 1
        [''z@x.org'', ''c@x.org''])) = []"
  by code_simp

lemma filter_single_unique:
  assumes "length (filter P xs) = 1" "a \<in> set xs" "P a" "b \<in> set xs" "P b"
  shows "a = b"
proof -
  from assms(1) obtain x where x: "filter P xs = [x]" by (auto simp: length_one_iff)
  have "a \<in> set (filter P xs)" "b \<in> set (filter P xs)" using assms by simp_all
  then show ?thesis unfolding x by simp
qed

lemma rebound_whole_task:
  "rebound e nu (slot_assignments d t 0) (assignments d)
     = map (\<lambda>a. if as_task_id a = t \<and> update_accepted e (assignments d) nu (as_id a)
                 then a\<lparr>as_annotator_id := nu\<rparr> else a) (assignments d)"
  unfolding rebound_def
proof (rule map_cong [OF refl])
  fix a assume a: "a \<in> set (assignments d)"
  have "(as_id a \<in> as_id ` set (slot_assignments d t 0)
          \<and> update_accepted e (assignments d) nu (as_id a))
      = (as_task_id a = t \<and> update_accepted e (assignments d) nu (as_id a))"
  proof (cases "update_accepted e (assignments d) nu (as_id a)")
    case False
    then show ?thesis by simp
  next
    case True
    then have one: "length (filter (\<lambda>b. as_id b = as_id a) (assignments d)) = 1"
      by (simp add: update_accepted_def)
    have "as_id a \<in> as_id ` set (slot_assignments d t 0) \<longleftrightarrow> as_task_id a = t"
    proof
      assume "as_id a \<in> as_id ` set (slot_assignments d t 0)"
      then obtain b where b: "b \<in> set (assignments d)" "as_task_id b = t" "as_id b = as_id a"
        by (auto simp: slot_assignments_def)
      have "b = a"
        by (rule filter_single_unique [OF one b(1) b(3) a refl])
      with b(2) show "as_task_id a = t" by simp
    next
      assume "as_task_id a = t"
      with a show "as_id a \<in> as_id ` set (slot_assignments d t 0)"
        by (auto simp: slot_assignments_def)
    qed
    with True show ?thesis by simp
  qed
  then show "(if as_id a \<in> as_id ` set (slot_assignments d t 0)
                 \<and> update_accepted e (assignments d) nu (as_id a)
              then a\<lparr>as_annotator_id := nu\<rparr> else a)
           = (if as_task_id a = t \<and> update_accepted e (assignments d) nu (as_id a)
              then a\<lparr>as_annotator_id := nu\<rparr> else a)"
    by simp
qed

text \<open>
  C9. \<open>findAssignmentsByTaskAndUser\<close> with \<open>annotator_number\<close> 0 applies no slot
  filter: it returns what it returns without the parameter, the assignments of the task
  of every slot. So the step of \<open>updateAssignees\<close> for a changed slot numbered 0
  re-binds the assignments of the whole task, whatever their slot: every row of the task
  whose update the store accepts gets the new binding (null for an empty email, the
  resolved user otherwise).
\<close>

theorem slot_zero_fetches_whole_task:
  "findAssignmentsByTaskAndUser d
       \<lparr>in_annotator_id = None, in_annotator_number = Some 0, in_task_id = t\<rparr>
     = findAssignmentsByTaskAndUser d
         \<lparr>in_annotator_id = None, in_annotator_number = None, in_task_id = t\<rparr>
   \<and> findAssignmentsByTaskAndUser d
       \<lparr>in_annotator_id = None, in_annotator_number = Some 0, in_task_id = t\<rparr>
     = Inr (sort_key as_id (filter (\<lambda>a. as_task_id a = t) (assignments d)))
   \<and> (ar_annotator_number (annotators ! i) = 0 \<and> new_emails ! i = [] \<longrightarrow>
        assignments (store (snd (updateAssignees_slot e t new_emails i annotators st w)))
          = map (\<lambda>a. if as_task_id a = t
                         \<and> update_accepted e (assignments (store w)) None (as_id a)
                      then a\<lparr>as_annotator_id := None\<rparr> else a) (assignments (store w)))
   \<and> (\<forall>user_id w1. ar_annotator_number (annotators ! i) = 0 \<and> i < length new_emails
          \<and> new_emails ! i \<noteq> []
          \<and> assignUserToTask e w (new_emails ! i) t = (Inr user_id, w1) \<longrightarrow>
        assignments (store (snd (updateAssignees_slot e t new_emails i annotators st w)))
          = map (\<lambda>a. if as_task_id a = t
                         \<and> update_accepted e (assignments (store w)) (Some user_id) (as_id a)
                      then a\<lparr>as_annotator_id := Some user_id\<rparr> else a) (assignments (store w)))"
proof (intro conjI allI impI)
  show "findAssignmentsByTaskAndUser d
       \<lparr>in_annotator_id = None, in_annotator_number = Some 0, in_task_id = t\<rparr>
     = findAssignmentsByTaskAndUser d
         \<lparr>in_annotator_id = None, in_annotator_number = None, in_task_id = t\<rparr>"
    by (simp add: findAssignmentsByTaskAndUser_def truthy_number_def truthy_string_def Let_def)
  show "findAssignmentsByTaskAndUser d
       \<lparr>in_annotator_id = None, in_annotator_number = Some 0, in_task_id = t\<rparr>
     = Inr (sort_key as_id (filter (\<lambda>a. as_task_id a = t) (assignments d)))"
    by (simp add: findAssignmentsByTaskAndUser_number slot_assignments_def)
next
  assume h: "ar_annotator_number (annotators ! i) = 0 \<and> new_emails ! i = []"
  then have em: "new_emails ! i = []" and z: "ar_annotator_number (annotators ! i) = 0"
    by simp_all
  show "assignments (store (snd (updateAssignees_slot e t new_emails i annotators st w)))
          = map (\<lambda>a. if as_task_id a = t
                         \<and> update_accepted e (assignments (store w)) None (as_id a)
                      then a\<lparr>as_annotator_id := None\<rparr> else a) (assignments (store w))"
    unfolding slot_empty_email [OF em] z by (simp add: rebound_whole_task)
next
  fix user_id w1
  assume h: "ar_annotator_number (annotators ! i) = 0 \<and> i < length new_emails
          \<and> new_emails ! i \<noteq> []
          \<and> assignUserToTask e w (new_emails ! i) t = (Inr user_id, w1)"
  then have z: "ar_annotator_number (annotators ! i) = 0" and il: "i < length new_emails"
    and ne: "new_emails ! i \<noteq> []"
    and r: "assignUserToTask e w (new_emails ! i) t = (Inr user_id, w1)"
    by simp_all
  show "assignments (store (snd (updateAssignees_slot e t new_emails i annotators st w)))
          = map (\<lambda>a. if as_task_id a = t
                         \<and> update_accepted e (assignments (store w)) (Some user_id) (as_id a)
                      then a\<lparr>as_annotator_id := Some user_id\<rparr> else a) (assignments (store w))"
    unfolding slot_resolution_ok [OF il ne r] z by (simp add: rebound_whole_task)
qed

theorem slot_zero_fetches_whole_task_witness:
  "map ar_annotator_number (get_all_annotators_from_task slot0_db 1) = [0, 1]
   \<and> map as_annotator_number (assignments slot0_db) = [0, 1]
   \<and> map as_annotator_id (assignments (store (snd
        (updateAssignees_slot ok_env 1 [''c@x.org'', ''b@x.org''] 0
           (get_all_annotators_from_task slot0_db 1) \<lparr>success = 0, failed = 0\<rparr>
           (world_of slot0_db)))))
     = [Some ''u3'', Some ''u3'']
   \<and> map as_annotator_id (assignments (store (snd
        (updateAssignees ok_env (world_of slot0_db) 1 [''c@x.org'', ''b@x.org'']))))
     = [Some ''u3'', Some ''u3'']"
proof -
  let ?w = "world_of slot0_db"
  let ?anns = "get_all_annotators_from_task slot0_db 1"
  let ?emails = "[''c@x.org'', ''b@x.org'']"
  have h: "ar_annotator_number (?anns ! 0) = 0 \<and> 0 < length ?emails \<and> ?emails ! 0 \<noteq> []
      \<and> assignUserToTask ok_env ?w (?emails ! 0) 1
          = (Inr ''u3'', ?w\<lparr>metadata_calls := [(''u3'', 1)], mail_calls := [''c@x.org'']\<rparr>)"
    by code_simp
  note t = slot_zero_fetches_whole_task [where e = ok_env and w = ?w and t = 1 and i = 0
      and annotators = ?anns and new_emails = ?emails and st = "\<lparr>success = 0, failed = 0\<rparr>",
      THEN conjunct2, THEN conjunct2, THEN conjunct2, THEN spec, THEN spec, THEN mp, OF h]
  have m: "map as_annotator_id
      (map (\<lambda>a. if as_task_id a = 1
                     \<and> update_accepted ok_env (assignments (store ?w)) (Some ''u3'') (as_id a)
                  then a\<lparr>as_annotator_id := Some ''u3''\<rparr> else a) (assignments (store ?w)))
      = [Some ''u3'', Some ''u3'']"
    by code_simp
  have a: "map ar_annotator_number ?anns = [0, 1]" by code_simp
  have b: "map as_annotator_number (assignments slot0_db) = [0, 1]" by code_simp
  have c: "map as_annotator_id (assignments (store (snd
        (updateAssignees ok_env ?w 1 ?emails)))) = [Some ''u3'', Some ''u3'']"
    by code_simp
  show ?thesis unfolding t using m a b c by simp
qed

subsection \<open>Next assignment in a task\<close>

text \<open>
  C7. With no pending assignment of the annotator in the task,
  \<open>findNextAssignmentsByUserAndTask\<close> fails: the store has no row to return and the
  handler throws, with the store's no-row message. With pending assignments it returns a
  single assignment, one of the annotator's pending assignments in the task.
\<close>

theorem findNextAssignmentsByUserAndTask_pending:
  fixes d :: db and a :: string and t :: int and pick :: nat
  defines "pend \<equiv> filter (\<lambda>x. as_annotator_id x = Some a \<and> as_task_id x = t
                                \<and> as_status x = Pending) (assignments d)"
  shows "(pend = [] \<longrightarrow>
            findNextAssignmentsByUserAndTask pick d a t
              = Inl (TRPCError INTERNAL_SERVER_ERROR
                  (''Error in findNextAssignmentsByUserAndTask: '' @ rows_error)))
       \<and> (pend \<noteq> [] \<longrightarrow>
            (\<exists>x. findNextAssignmentsByUserAndTask pick d a t = Inr (Some x)
                 \<and> x \<in> set pend \<and> as_status x = Pending
                 \<and> as_annotator_id x = Some a \<and> as_task_id x = t))"
proof (intro conjI impI)
  assume e: "pend = []"
  show "findNextAssignmentsByUserAndTask pick d a t
      = Inl (TRPCError INTERNAL_SERVER_ERROR
          (''Error in findNextAssignmentsByUserAndTask: '' @ rows_error))"
    using e unfolding pend_def
    by (simp add: findNextAssignmentsByUserAndTask_def next_random_assignment_def single_def
        err_msg_def)
next
  assume ne: "pend \<noteq> []"
  let ?x = "pend ! (pick mod length pend)"
  have m: "?x \<in> set pend" using ne by simp
  have r: "findNextAssignmentsByUserAndTask pick d a t = Inr (Some ?x)"
    using ne unfolding pend_def
    by (simp add: findNextAssignmentsByUserAndTask_def next_random_assignment_def single_def
        Let_def)
  have "as_status ?x = Pending \<and> as_annotator_id ?x = Some a \<and> as_task_id ?x = t"
    using m unfolding pend_def by simp
  with r m show "\<exists>x. findNextAssignmentsByUserAndTask pick d a t = Inr (Some x)
                 \<and> x \<in> set pend \<and> as_status x = Pending
                 \<and> as_annotator_id x = Some a \<and> as_task_id x = t"
    by blast
qed

theorem findNextAssignmentsByUserAndTask_pending_witness:
  "findNextAssignmentsByUserAndTask 7 queue_db ''u3'' 1
     = Inl (TRPCError INTERNAL_SERVER_ERROR
         (''Error in findNextAssignmentsByUserAndTask: '' @ rows_error))
   \<and> (\<exists>x. findNextAssignmentsByUserAndTask 7 queue_db ''u1'' 1 = Inr (Some x)
          \<and> as_status x = Pending \<and> as_annotator_id x = Some ''u1'' \<and> as_task_id x = 1)"
proof -
  have none: "filter (\<lambda>x. as_annotator_id x = Some ''u3'' \<and> as_task_id x = 1
      \<and> as_status x = Pending) (assignments queue_db) = []"
    by code_simp
  have some: "filter (\<lambda>x. as_annotator_id x = Some ''u1'' \<and> as_task_id x = 1
      \<and> as_status x = Pending) (assignments queue_db) \<noteq> []"
    by code_simp
  note t1 = findNextAssignmentsByUserAndTask_pending
    [where d = queue_db and a = "''u3''" and t = 1 and pick = 7, THEN conjunct1, THEN mp, OF none]
  note t2 = findNextAssignmentsByUserAndTask_pending
    [where d = queue_db and a = "''u1''" and t = 1 and pick = 7, THEN conjunct2, THEN mp, OF some]
  show ?thesis using t1 t2 by blast
qed

subsection \<open>Replication\<close>

lemma createMany_object:
  "\<exists>msg. assignment_createMany d (InputObject task_id rows) = (Inl (TRPCError BAD_REQUEST msg), d)"
  by (simp add: assignment_createMany_def)

lemma findAssignmentsByTask_returns:
  "\<exists>rows. findAssignmentsByTask d task_id = Inr rows"
  by (simp add: findAssignmentsByTask_def select_many_def Let_def)

lemma task_findById_row:
  "filter (\<lambda>x. tk_id x = task_id) (tasks d) = [task] \<Longrightarrow> task_findById d task_id = Inr task"
  by (simp add: task_findById_def single_def Let_def)

lemma replicateTask_missing:
  assumes "task_findById d task_id = Inl err"
  shows "replicateTask d task_id = (Inl err, d)"
  using assms by (simp add: replicateTask_def)

lemma replicateTask_found:
  assumes "task_findById d task_id = Inr task"
  shows "\<exists>msg. replicateTask d task_id
     = (Inl (TRPCError BAD_REQUEST msg),
        d\<lparr>tasks := tasks d @ [task\<lparr>tk_id := fresh_id (map tk_id (tasks d))\<rparr>]\<rparr>)"
proof -
  let ?new = "task\<lparr>tk_id := fresh_id (map tk_id (tasks d))\<rparr>"
  let ?d1 = "d\<lparr>tasks := tasks d @ [?new]\<rparr>"
  have c: "task_create d task = (Inr ?new, ?d1)"
    by (simp add: task_create_def Let_def)
  obtain rows where f: "findAssignmentsByTask ?d1 task_id = Inr rows"
    using findAssignmentsByTask_returns by blast
  obtain msg where m: "assignment_createMany ?d1 (InputObject (fresh_id (map tk_id (tasks d)))
             (map (\<lambda>a. \<lparr>na_task_id = None, na_document_id = Number (as_document_id a),
                         na_annotator_id = as_annotator_id a,
                         na_annotator_number = as_annotator_number a,
                         na_status = as_status a, na_origin = as_origin a,
                         na_seq_pos = as_seq_pos a,
                         na_difficulty_rating = as_difficulty_rating a\<rparr>) rows))
        = (Inl (TRPCError BAD_REQUEST msg), ?d1)"
    using createMany_object by blast
  have "replicateTask d task_id = (Inl (TRPCError BAD_REQUEST msg), ?d1)"
    by (simp add: replicateTask_def assms c f m)
  then show ?thesis by blast
qed

text \<open>
  C3. The code does not produce the copy. \<open>replicateTask\<close> passes the batch of
  assignments to \<open>createMany\<close> as the object \<open>{task_id, assignments}\<close>, and the input
  schema of \<open>createMany\<close> is an array: the call is refused. So every call of
  \<open>replicateTask\<close> ends with an error and leaves the tables of assignments, annotations
  and relations as they were. When the task exists, the error is the \<open>BAD_REQUEST\<close> of
  the refused input, and the store has gained the row of the new task, which stays: a
  task with no assignment, no annotation and no relation.
\<close>

theorem replicateTask_refused:
  "(\<exists>err. fst (replicateTask d task_id) = Inl err)
   \<and> assignments (snd (replicateTask d task_id)) = assignments d
   \<and> annotations (snd (replicateTask d task_id)) = annotations d
   \<and> annotation_relations (snd (replicateTask d task_id)) = annotation_relations d
   \<and> (\<forall>task. filter (\<lambda>x. tk_id x = task_id) (tasks d) = [task] \<longrightarrow>
         (\<exists>msg. replicateTask d task_id
            = (Inl (TRPCError BAD_REQUEST msg),
               d\<lparr>tasks := tasks d @ [task\<lparr>tk_id := fresh_id (map tk_id (tasks d))\<rparr>]\<rparr>)))"
proof -
  have a: "(\<exists>err. fst (replicateTask d task_id) = Inl err)
   \<and> assignments (snd (replicateTask d task_id)) = assignments d
   \<and> annotations (snd (replicateTask d task_id)) = annotations d
   \<and> annotation_relations (snd (replicateTask d task_id)) = annotation_relations d"
  proof (cases "task_findById d task_id")
    case (Inl err)
    show ?thesis unfolding replicateTask_missing [OF Inl] by simp
  next
    case (Inr task)
    from replicateTask_found [OF Inr] obtain msg where "replicateTask d task_id
     = (Inl (TRPCError BAD_REQUEST msg),
        d\<lparr>tasks := tasks d @ [task\<lparr>tk_id := fresh_id (map tk_id (tasks d))\<rparr>]\<rparr>)"
      by blast
    then show ?thesis by simp
  qed
  have b: "\<forall>task. filter (\<lambda>x. tk_id x = task_id) (tasks d) = [task] \<longrightarrow>
         (\<exists>msg. replicateTask d task_id
            = (Inl (TRPCError BAD_REQUEST msg),
               d\<lparr>tasks := tasks d @ [task\<lparr>tk_id := fresh_id (map tk_id (tasks d))\<rparr>]\<rparr>))"
    using replicateTask_found [OF task_findById_row] by blast
  from a b show ?thesis by blast
qed

theorem replicateTask_refused_witness:
  "filter (\<lambda>x. tk_id x = 1) (tasks lab_db) = [task1]
   \<and> length (filter (\<lambda>a. as_task_id a = 1) (assignments lab_db)) = 2
   \<and> (\<exists>msg. fst (replicateTask lab_db 1) = Inl (TRPCError BAD_REQUEST msg))
   \<and> map tk_id (tasks (snd (replicateTask lab_db 1))) = [1, 2, 3]
   \<and> filter (\<lambda>a. as_task_id a = 3) (assignments (snd (replicateTask lab_db 1))) = []"
proof -
  have h: "filter (\<lambda>x. tk_id x = 1) (tasks lab_db) = [task1]" by code_simp
  have n: "length (filter (\<lambda>a. as_task_id a = 1) (assignments lab_db)) = 2" by code_simp
  have i: "map tk_id (tasks (lab_db\<lparr>tasks := tasks lab_db
      @ [task1\<lparr>tk_id := fresh_id (map tk_id (tasks lab_db))\<rparr>]\<rparr>)) = [1, 2, 3]"
    by code_simp
  have e: "filter (\<lambda>a. as_task_id a = 3) (assignments lab_db) = []" by code_simp
  note t = replicateTask_refused [where d = lab_db and task_id = 1]
  from t [THEN conjunct2, THEN conjunct2, THEN conjunct2, THEN conjunct2, THEN spec,
      THEN mp, OF h]
  obtain msg where r: "replicateTask lab_db 1
     = (Inl (TRPCError BAD_REQUEST msg),
        lab_db\<lparr>tasks := tasks lab_db @ [task1\<lparr>tk_id := fresh_id (map tk_id (tasks lab_db))\<rparr>]\<rparr>)"
    by blast
  have m: "\<exists>msg. fst (replicateTask lab_db 1) = Inl (TRPCError BAD_REQUEST msg)"
    unfolding r by simp
  have k: "map tk_id (tasks (snd (replicateTask lab_db 1))) = [1, 2, 3]"
    unfolding r snd_conv by (rule i)
  have f: "filter (\<lambda>a. as_task_id a = 3) (assignments (snd (replicateTask lab_db 1))) = []"
    unfolding t [THEN conjunct2, THEN conjunct1] by (rule e)
  from h n m k f show ?thesis by blast
qed

subsection \<open>Merge\<close>

lemma build_name2Id_prototype:
  assumes "name \<in> set Object_prototype" and "name2Id name = None"
  shows "build_name2Id rows name2Id name = None"
  using assms
proof (induction rows arbitrary: name2Id)
  case Nil
  then show ?case by simp
next
  case (Cons a rows)
  show ?case
  proof (cases "js_in (documents_name a) name2Id")
    case True
    then show ?thesis using Cons by simp
  next
    case False
    then have "documents_name a \<noteq> name" using Cons.prems(1) by (auto simp: js_in_def)
    then have "(name2Id(documents_name a \<mapsto> as_document_id (ra_assignment a))) name = None"
      using Cons.prems(2) by simp
    note ih = Cons.IH [where name2Id = "name2Id(documents_name a \<mapsto> as_document_id (ra_assignment a))",
        OF Cons.prems(1) this]
    have "build_name2Id (a # rows) name2Id
        = build_name2Id rows (name2Id(documents_name a \<mapsto> as_document_id (ra_assignment a)))"
      using False by simp
    then show ?thesis using ih by (simp only:)
  qed
qed

lemma mergeTasks_replica_fails:
  assumes "replicateTask d originalTaskId = (Inl err, d1)"
  shows "mergeTasks d originalTaskId similarTaskId = (Inl (mergeTasks_catch err), d1)"
  using assms by (simp add: mergeTasks_def)

text \<open>
  C5. The code does not insert the assignments of the similar task. \<open>mergeTasks\<close> begins
  with \<open>replicateTask\<close>, whose batch insert is refused (the object \<open>{task_id, assignments}\<close>
  against the array schema of \<open>createMany\<close>), and its own batch insert has the same
  form. So every call of \<open>mergeTasks\<close> ends with an error and leaves the table of
  assignments as it was: the merged task has no combined assignment set. When the
  original task exists, the error is \<open>Error in mergeTasks:\<close> followed by the refusal, and
  the store has gained the row of an empty task. Besides, a document name that
  \<open>Object.prototype\<close> has (\<open>constructor\<close>, \<open>toString\<close>) is never entered in \<open>name2Id\<close>,
  and its lookup gives the inherited member, not a document id.
\<close>

theorem mergeTasks_refused:
  "(\<exists>err. fst (mergeTasks d originalTaskId similarTaskId) = Inl err)
   \<and> assignments (snd (mergeTasks d originalTaskId similarTaskId)) = assignments d
   \<and> (\<forall>task. filter (\<lambda>x. tk_id x = originalTaskId) (tasks d) = [task] \<longrightarrow>
         (\<exists>msg. mergeTasks d originalTaskId similarTaskId
            = (Inl (TRPCError INTERNAL_SERVER_ERROR (''Error in mergeTasks: TRPCError: '' @ msg)),
               d\<lparr>tasks := tasks d @ [task\<lparr>tk_id := fresh_id (map tk_id (tasks d))\<rparr>]\<rparr>)))
   \<and> (\<forall>rows name. name \<in> set Object_prototype \<longrightarrow>
         js_get (build_name2Id rows Map.empty) name = Inherited name)"
proof -
  have a: "(\<exists>err. fst (mergeTasks d originalTaskId similarTaskId) = Inl err)
   \<and> assignments (snd (mergeTasks d originalTaskId similarTaskId)) = assignments d"
  proof (cases "task_findById d originalTaskId")
    case (Inl err)
    show ?thesis
      unfolding mergeTasks_replica_fails [OF replicateTask_missing [OF Inl]] by simp
  next
    case (Inr task)
    from replicateTask_found [OF Inr] obtain msg where r: "replicateTask d originalTaskId
     = (Inl (TRPCError BAD_REQUEST msg),
        d\<lparr>tasks := tasks d @ [task\<lparr>tk_id := fresh_id (map tk_id (tasks d))\<rparr>]\<rparr>)"
      by blast
    show ?thesis unfolding mergeTasks_replica_fails [OF r] by simp
  qed
  have b: "\<forall>task. filter (\<lambda>x. tk_id x = originalTaskId) (tasks d) = [task] \<longrightarrow>
         (\<exists>msg. mergeTasks d originalTaskId similarTaskId
            = (Inl (TRPCError INTERNAL_SERVER_ERROR (''Error in mergeTasks: TRPCError: '' @ msg)),
               d\<lparr>tasks := tasks d @ [task\<lparr>tk_id := fresh_id (map tk_id (tasks d))\<rparr>]\<rparr>))"
  proof (intro allI impI)
    fix task
    assume "filter (\<lambda>x. tk_id x = originalTaskId) (tasks d) = [task]"
    from replicateTask_found [OF task_findById_row [OF this]]
    obtain msg where r: "replicateTask d originalTaskId
     = (Inl (TRPCError BAD_REQUEST msg),
        d\<lparr>tasks := tasks d @ [task\<lparr>tk_id := fresh_id (map tk_id (tasks d))\<rparr>]\<rparr>)"
      by blast
    have "mergeTasks d originalTaskId similarTaskId
            = (Inl (TRPCError INTERNAL_SERVER_ERROR (''Error in mergeTasks: TRPCError: '' @ msg)),
               d\<lparr>tasks := tasks d @ [task\<lparr>tk_id := fresh_id (map tk_id (tasks d))\<rparr>]\<rparr>)"
      unfolding mergeTasks_replica_fails [OF r] by (simp add: mergeTasks_catch_def)
    then show "\<exists>msg. mergeTasks d originalTaskId similarTaskId
            = (Inl (TRPCError INTERNAL_SERVER_ERROR (''Error in mergeTasks: TRPCError: '' @ msg)),
               d\<lparr>tasks := tasks d @ [task\<lparr>tk_id := fresh_id (map tk_id (tasks d))\<rparr>]\<rparr>)"
      by blast
  qed
  have c: "\<forall>rows name. name \<in> set Object_prototype \<longrightarrow>
         js_get (build_name2Id rows Map.empty) name = Inherited name"
    by (simp add: js_get_def build_name2Id_prototype)
  from a b c show ?thesis by blast
qed

theorem mergeTasks_refused_witness:
  "filter (\<lambda>x. tk_id x = 1) (tasks lab_db) = [task1]
   \<and> (\<exists>msg. fst (mergeTasks lab_db 1 2)
         = Inl (TRPCError INTERNAL_SERVER_ERROR (''Error in mergeTasks: TRPCError: '' @ msg)))
   \<and> map tk_id (tasks (snd (mergeTasks lab_db 1 2))) = [1, 2, 3]
   \<and> filter (\<lambda>a. as_task_id a = 3) (assignments (snd (mergeTasks lab_db 1 2))) = []
   \<and> ''constructor'' \<in> set Object_prototype
   \<and> js_get (build_name2Id
        [\<lparr>ra_assignment = asg 1 1 10 (Some ''u1'') 1 Pending 1,
          ra_documents = Some \<lparr>dc_id = 10, dc_name = ''constructor''\<rparr>\<rparr>] Map.empty)
        ''constructor'' = Inherited ''constructor''"
proof -
  have h: "filter (\<lambda>x. tk_id x = 1) (tasks lab_db) = [task1]" by code_simp
  have i: "map tk_id (tasks (lab_db\<lparr>tasks := tasks lab_db
      @ [task1\<lparr>tk_id := fresh_id (map tk_id (tasks lab_db))\<rparr>]\<rparr>)) = [1, 2, 3]"
    by code_simp
  have e: "filter (\<lambda>a. as_task_id a = 3) (assignments lab_db) = []" by code_simp
  have p: "''constructor'' \<in> set Object_prototype" by code_simp
  note t = mergeTasks_refused [where d = lab_db and originalTaskId = 1 and similarTaskId = 2]
  from t [THEN conjunct2, THEN conjunct2, THEN conjunct1, THEN spec, THEN mp, OF h]
  obtain msg where r: "mergeTasks lab_db 1 2
     = (Inl (TRPCError INTERNAL_SERVER_ERROR (''Error in mergeTasks: TRPCError: '' @ msg)),
        lab_db\<lparr>tasks := tasks lab_db @ [task1\<lparr>tk_id := fresh_id (map tk_id (tasks lab_db))\<rparr>]\<rparr>)"
    by blast
  have m: "\<exists>msg. fst (mergeTasks lab_db 1 2)
         = Inl (TRPCError INTERNAL_SERVER_ERROR (''Error in mergeTasks: TRPCError: '' @ msg))"
    unfolding r by simp
  have k: "map tk_id (tasks (snd (mergeTasks lab_db 1 2))) = [1, 2, 3]"
    unfolding r snd_conv by (rule i)
  have f: "filter (\<lambda>a. as_task_id a = 3) (assignments (snd (mergeTasks lab_db 1 2))) = []"
    unfolding t [THEN conjunct2, THEN conjunct1] by (rule e)
  note g = t [THEN conjunct2, THEN conjunct2, THEN conjunct2, THEN spec, THEN spec, THEN mp,
      OF p]
  from h m k f p g show ?thesis by blast
qed

end
